theory Spec2Isabelle
  imports Complex_Main "HOL-Library.Option_ord"
begin

section \<open>Data model\<close>

text \<open>
  The program works on pandas data frames. A frame is modelled column-major, as pandas
  stores it: an ordered list of named columns, each a list of cells. A cell is a string,
  a number, the missing number \<open>NaN\<close>, a timestamp or the missing timestamp \<open>NaT\<close>.
  Floating-point numbers are modelled as reals; timestamps as an integer count of time
  units since the epoch. Strings are ASCII byte strings.
\<close>

datatype cell = Str string | Num real | NaN | Time int | NaT

type_synonym series = "cell list"
type_synonym frame = "(string \<times> series) list"

datatype error = KeyError string | TypeError string | ValueError string | SystemExit string

definition columns :: "frame \<Rightarrow> string list" where
  "columns df = map fst df"

text \<open>\<open>df[col]\<close> for a column name that is present.\<close>

definition getcol :: "frame \<Rightarrow> string \<Rightarrow> series" where
  "getcol df col = (case map_of df col of Some s \<Rightarrow> s | None \<Rightarrow> [])"

text \<open>\<open>df[col] = values\<close> for a column name that is present: the column is replaced in place.\<close>

definition setcol :: "frame \<Rightarrow> string \<Rightarrow> series \<Rightarrow> frame" where
  "setcol df col values = map (\<lambda>(n, s). if n = col then (n, values) else (n, s)) df"

text \<open>\<open>df[mask]\<close>: keep the rows whose mask entry is true, in every column.\<close>

definition select :: "bool list \<Rightarrow> 'a list \<Rightarrow> 'a list" where
  "select msk xs = map snd (filter fst (zip msk xs))"

definition select_rows :: "bool list \<Rightarrow> frame \<Rightarrow> frame" where
  "select_rows msk df = map (\<lambda>(n, s). (n, select msk s)) df"

definition nrows :: "frame \<Rightarrow> nat" where
  "nrows df = (case df of [] \<Rightarrow> 0 | (n, s) # _ \<Rightarrow> length s)"

text \<open>Row \<open>i\<close> of a frame, and the list of its rows; every column of a well-formed frame
  has the same length.\<close>

definition row :: "frame \<Rightarrow> nat \<Rightarrow> cell list" where
  "row df i = map (\<lambda>(n, s). s ! i) df"

definition rows_of :: "frame \<Rightarrow> cell list list" where
  "rows_of df = map (row df) [0..<nrows df]"

definition wf_frame :: "frame \<Rightarrow> bool" where
  "wf_frame df = list_all (\<lambda>(n, s). length s = nrows df) df"

subsection \<open>Strings\<close>

text \<open>Python's \<open>str.isspace\<close> on ASCII: tab, line feed, vertical tab, form feed, carriage
  return, the separators 0x1C to 0x1F, and the space. \<open>str.strip()\<close> and the regular
  expression class \<open>\s\<close> use the same test.\<close>

definition is_space :: "char \<Rightarrow> bool" where
  "is_space c = (c \<in> set [CHR 0x20, CHR 0x09, CHR 0x0A, CHR 0x0B, CHR 0x0C, CHR 0x0D,
                           CHR 0x1C, CHR 0x1D, CHR 0x1E, CHR 0x1F])"

definition strip :: "string \<Rightarrow> string" where
  "strip s = rev (dropWhile is_space (rev (dropWhile is_space s)))"

definition lower_char :: "char \<Rightarrow> char" where
  "lower_char c = (case map_of (zip ''ABCDEFGHIJKLMNOPQRSTUVWXYZ'' ''abcdefghijklmnopqrstuvwxyz'') c of
                     Some d \<Rightarrow> d | None \<Rightarrow> c)"

definition lower :: "string \<Rightarrow> string" where
  "lower s = map lower_char s"

text \<open>\<open>k in s\<close> on strings: \<open>k\<close> occurs in \<open>s\<close> as a contiguous substring.\<close>

fun contains :: "string \<Rightarrow> string \<Rightarrow> bool" where
  "contains [] k = (k = [])"
| "contains (c # s) k = (take (length k) (c # s) = k \<or> contains s k)"

section \<open>Processor\<close>

subsection \<open>to_numeric\<close>

text \<open>
  \<open>pd.to_numeric(series, errors="coerce")\<close>, cell by cell. The numeric parser of strings
  is the library's and is a parameter \<open>parse\<close> (\<open>None\<close>: the string is not a number, the
  cell becomes NaN). Numbers are kept. A datetime column is viewed as its integer
  representation, in which NaT is the smallest 64-bit integer.
\<close>

definition pd_to_numeric_cell :: "(string \<Rightarrow> real option) \<Rightarrow> cell \<Rightarrow> cell" where
  "pd_to_numeric_cell parse c = (case c of
       Str s \<Rightarrow> (case parse s of Some x \<Rightarrow> Num x | None \<Rightarrow> NaN)
     | Num x \<Rightarrow> Num x
     | NaN \<Rightarrow> NaN
     | Time t \<Rightarrow> Num (of_int t)
     | NaT \<Rightarrow> Num (- 9223372036854775808))"

definition pd_to_numeric :: "(string \<Rightarrow> real option) \<Rightarrow> series \<Rightarrow> series" where
  "pd_to_numeric parse s = map (pd_to_numeric_cell parse) s"

text \<open>
  \<^verbatim>\<open>
  for col in columns:
      if col in df.columns:
          df[col] = pd.to_numeric(df[col], errors="coerce")
  return df
  \<close>
\<close>

fun to_numeric :: "(string \<Rightarrow> real option) \<Rightarrow> frame \<Rightarrow> string list \<Rightarrow> frame" where
  "to_numeric parse df [] = df"
| "to_numeric parse df (col # cols) =
     (if col \<in> set (columns df)
      then to_numeric parse (setcol df col (pd_to_numeric parse (getcol df col))) cols
      else to_numeric parse df cols)"

text \<open>What \<open>to_numeric\<close> computes in one pass, for the idempotence proof: every present
  column that is named is replaced by its coercion, every other column is kept.\<close>

definition coerced :: "(string \<Rightarrow> real option) \<Rightarrow> frame \<Rightarrow> string list \<Rightarrow> frame" where
  "coerced parse df cols =
     map (\<lambda>(n, s). if n \<in> set cols then (n, pd_to_numeric parse (getcol df n)) else (n, s)) df"

subsection \<open>handle_trace_values\<close>

text \<open>
  \<open>series.astype(str)\<close>: a string cell is itself; the text of any other cell is the
  library's (\<open>str_of\<close>, a parameter: \<open>"nan"\<close> for NaN, \<open>"0.0"\<close> for 0.0 and so on).
\<close>

definition astype_str :: "(cell \<Rightarrow> string) \<Rightarrow> cell \<Rightarrow> string" where
  "astype_str str_of c = (case c of Str s \<Rightarrow> s | _ \<Rightarrow> str_of c)"

text \<open>\<open>df.loc[mask, col] = replacement\<close> on one column.\<close>

definition loc_assign :: "bool list \<Rightarrow> series \<Rightarrow> cell \<Rightarrow> series" where
  "loc_assign msk s v = map (\<lambda>(m, c). if m then v else c) (zip msk s)"

text \<open>
  \<^verbatim>\<open>
  for col in columns:
      if col in df.columns:
          s = df[col].astype(str).str.strip()
          mask = s.str.lower() == str(trace_token).lower()
          if mask.any():
              df.loc[mask, col] = replacement
  return df
  \<close>
\<close>

fun handle_trace_values ::
  "(cell \<Rightarrow> string) \<Rightarrow> frame \<Rightarrow> string list \<Rightarrow> string \<Rightarrow> real \<Rightarrow> frame" where
  "handle_trace_values str_of df [] trace_token replacement = df"
| "handle_trace_values str_of df (col # cols) trace_token replacement =
     (if col \<in> set (columns df)
      then (let s = map (\<lambda>c. strip (astype_str str_of c)) (getcol df col);
                msk = map (\<lambda>x. lower x = lower trace_token) s
            in if True \<in> set msk
               then handle_trace_values str_of
                      (setcol df col (loc_assign msk (getcol df col) (Num replacement)))
                      cols trace_token replacement
               else handle_trace_values str_of df cols trace_token replacement)
      else handle_trace_values str_of df cols trace_token replacement)"

text \<open>The cell-level test the loop applies, for stating what it does.\<close>

definition matches_token :: "(cell \<Rightarrow> string) \<Rightarrow> string \<Rightarrow> cell \<Rightarrow> bool" where
  "matches_token str_of trace_token c =
     (lower (strip (astype_str str_of c)) = lower trace_token)"

subsection \<open>filter_date_range\<close>

text \<open>
  Python truthiness of an optional string: \<open>None\<close> and the empty string are falsy.
\<close>

definition truthy :: "string option \<Rightarrow> bool" where
  "truthy s = (case s of None \<Rightarrow> False | Some x \<Rightarrow> x \<noteq> [])"

definition is_time :: "cell \<Rightarrow> bool" where
  "is_time c = (case c of Time t \<Rightarrow> True | NaT \<Rightarrow> True | _ \<Rightarrow> False)"

text \<open>
  What \<open>pd.to_datetime\<close> gives for a string that parses: a point in time, and whether
  the timestamp carries a time zone (as for \<open>"2025-01-01T00:00:00Z"\<close>) or is naive. Two
  timestamps of one kind compare by their points in time.
\<close>

datatype timestamp = Timestamp int bool

text \<open>
  One element of \<open>series >= bound\<close> and of \<open>series <= bound\<close>, where the bound is a
  point in time or NaT (\<open>None\<close>). Every comparison with NaT, on either side, is false.
\<close>

definition ge_bound :: "int option \<Rightarrow> cell \<Rightarrow> bool" where
  "ge_bound b c = (case (c, b) of (Time t, Some s) \<Rightarrow> s \<le> t | _ \<Rightarrow> False)"

definition le_bound :: "int option \<Rightarrow> cell \<Rightarrow> bool" where
  "le_bound b c = (case (c, b) of (Time t, Some s) \<Rightarrow> t \<le> s | _ \<Rightarrow> False)"

text \<open>
  \<open>df[cmp(df[datetime_col], bound)]\<close>. pandas raises TypeError when the column holds
  anything but timestamps, and when the bound is a timestamp with a time zone and the
  column's dtype has none, or the reverse; it decides by the dtype, so also on a column
  with no rows. The cells do not record the dtype: \<open>tz_aware\<close> says whether the dtype of
  the datetime column has a time zone. Selecting rows keeps the dtype. A NaT bound never
  raises.
\<close>

definition filter_cmp ::
  "(int option \<Rightarrow> cell \<Rightarrow> bool) \<Rightarrow> bool \<Rightarrow> frame \<Rightarrow> string \<Rightarrow> timestamp option
     \<Rightarrow> error + frame" where
  "filter_cmp cmp tz_aware df datetime_col bound =
     (if \<not> list_all is_time (getcol df datetime_col)
      then Inl (TypeError ''invalid comparison'')
      else case bound of
             None \<Rightarrow> Inr (select_rows (map (cmp None) (getcol df datetime_col)) df)
           | Some (Timestamp t aware) \<Rightarrow>
               if aware \<noteq> tz_aware
               then Inl (TypeError ''Cannot compare tz-naive and tz-aware datetime-like objects'')
               else Inr (select_rows (map (cmp (Some t)) (getcol df datetime_col)) df))"

text \<open>
  \<^verbatim>\<open>
  if datetime_col not in df.columns:
      return df
  if start:
      df = df[df[datetime_col] >= pd.to_datetime(start, errors="coerce")]
  if end:
      df = df[df[datetime_col] <= pd.to_datetime(end, errors="coerce")]
  return df
  \<close>
  \<open>pd.to_datetime(s, errors="coerce")\<close> on one string is the library's and is the
  parameter \<open>to_datetime\<close>; \<open>None\<close> is NaT, the result for a string that does not parse.
\<close>

definition filter_date_range ::
  "(string \<Rightarrow> timestamp option) \<Rightarrow> bool \<Rightarrow> frame \<Rightarrow> string \<Rightarrow> string option \<Rightarrow> string option
     \<Rightarrow> error + frame" where
  "filter_date_range to_datetime tz_aware df datetime_col start end' =
     (if datetime_col \<notin> set (columns df) then Inr df
      else case (case start of
                   Some s \<Rightarrow> if s \<noteq> []
                            then filter_cmp ge_bound tz_aware df datetime_col (to_datetime s)
                            else Inr df
                 | None \<Rightarrow> Inr df) of
             Inl e \<Rightarrow> Inl e
           | Inr df1 \<Rightarrow>
               (case end' of
                  Some s \<Rightarrow> if s \<noteq> []
                           then filter_cmp le_bound tz_aware df1 datetime_col (to_datetime s)
                           else Inr df1
                | None \<Rightarrow> Inr df1))"

text \<open>One of the two \<open>if bound: df = df[...]\<close> statements, for the proofs.\<close>

definition bound_step ::
  "(int option \<Rightarrow> cell \<Rightarrow> bool) \<Rightarrow> (string \<Rightarrow> timestamp option) \<Rightarrow> bool \<Rightarrow> frame \<Rightarrow> string
     \<Rightarrow> string option \<Rightarrow> error + frame" where
  "bound_step cmp to_datetime tz_aware df datetime_col bound =
     (case bound of
        Some s \<Rightarrow> if s \<noteq> [] then filter_cmp cmp tz_aware df datetime_col (to_datetime s)
                 else Inr df
      | None \<Rightarrow> Inr df)"

text \<open>A bound that is applied and parses to a timestamp whose kind (with or without time
  zone) is not the column's: the comparison with it raises.\<close>

definition tz_mismatch :: "(string \<Rightarrow> timestamp option) \<Rightarrow> bool \<Rightarrow> string option \<Rightarrow> bool" where
  "tz_mismatch to_datetime tz_aware bound =
     (\<exists>s t aware. bound = Some s \<and> s \<noteq> [] \<and> to_datetime s = Some (Timestamp t aware) \<and>
                  aware \<noteq> tz_aware)"

text \<open>A table with a parsed datetime column: the column is present, holds timestamps
  only, and the columns have one length.\<close>

definition parsed_datetime_col :: "frame \<Rightarrow> string \<Rightarrow> bool" where
  "parsed_datetime_col df datetime_col =
     (datetime_col \<in> set (columns df) \<and> list_all is_time (getcol df datetime_col) \<and> wf_frame df)"

text \<open>A parser used in the examples: it knows two naive dates and one timestamp with a
  time zone (as seconds since the epoch) and rejects every other string, as the library
  rejects text that is no date.\<close>

definition sample_to_datetime :: "string \<Rightarrow> timestamp option" where
  "sample_to_datetime s =
     map_of [(''2025-01-01'', Timestamp 1735689600 False),
             (''2025-01-31'', Timestamp 1738281600 False),
             (''2025-01-01T00:00:00Z'', Timestamp 1735689600 True)] s"

subsection \<open>resample\<close>

text \<open>
  The non-missing numbers of a numeric column (\<open>dropna\<close>, and the \<open>skipna\<close> of the
  pandas reductions).
\<close>

fun values_of :: "series \<Rightarrow> real list" where
  "values_of [] = []"
| "values_of (Num x # cs) = x # values_of cs"
| "values_of (c # cs) = values_of cs"

definition numeric_col :: "series \<Rightarrow> bool" where
  "numeric_col s = list_all (\<lambda>c. case c of Num x \<Rightarrow> True | NaN \<Rightarrow> True | _ \<Rightarrow> False) s"

text \<open>
  The pandas group reductions on the non-missing values of one bucket and column. With
  nothing to reduce, \<open>mean\<close>, \<open>min\<close>, \<open>max\<close> and \<open>median\<close> give NaN, and \<open>sum\<close>
  gives 0 (pandas sums with \<open>min_count=0\<close>).
\<close>

definition agg_mean :: "real list \<Rightarrow> cell" where
  "agg_mean xs = (if xs = [] then NaN else Num (sum_list xs / real (length xs)))"

definition agg_sum :: "real list \<Rightarrow> cell" where
  "agg_sum xs = Num (sum_list xs)"

definition agg_min :: "real list \<Rightarrow> cell" where
  "agg_min xs = (case xs of [] \<Rightarrow> NaN | x # r \<Rightarrow> Num (fold min r x))"

definition agg_max :: "real list \<Rightarrow> cell" where
  "agg_max xs = (case xs of [] \<Rightarrow> NaN | x # r \<Rightarrow> Num (fold max r x))"

definition agg_median :: "real list \<Rightarrow> cell" where
  "agg_median xs =
     (if xs = [] then NaN
      else (let s = sort xs; n = length s
            in Num (if odd n then s ! (n div 2)
                    else (s ! (n div 2 - 1) + s ! (n div 2)) / 2)))"

text \<open>The \<open>if agg == ... elif ...\<close> chain; \<open>None\<close> is its \<open>else\<close> branch.\<close>

definition reducer :: "string \<Rightarrow> (real list \<Rightarrow> cell) option" where
  "reducer agg =
     (if agg = ''mean'' then Some agg_mean
      else if agg = ''sum'' then Some agg_sum
      else if agg = ''min'' then Some agg_min
      else if agg = ''max'' then Some agg_max
      else if agg = ''median'' then Some agg_median
      else None)"

text \<open>
  \<open>df.set_index(datetime_col)[cols].resample(freq)\<close> groups the rows into time buckets.
  The bucketing is the library's and is the parameter \<open>resampler\<close>: from the frequency
  string and the index column it gives the buckets in time order, each with its label and
  the mask of the rows it holds, or it raises (an invalid frequency, an index that holds no
  timestamps). pandas lists every bucket between the first and the last timestamp, also
  those holding no row.
\<close>

type_synonym resampler = "string \<Rightarrow> series \<Rightarrow> error + (int \<times> bool list) list"

text \<open>
  \<^verbatim>\<open>
  if not freq or datetime_col not in df.columns or not set(cols).issubset(df.columns):
      return None
  g = df.set_index(datetime_col)[cols].resample(freq)
  if   agg == "mean":   out = g.mean()
  elif agg == "sum":    out = g.sum()
  elif agg == "min":    out = g.min()
  elif agg == "max":    out = g.max()
  elif agg == "median": out = g.median()
  else:
      raise SystemExit(f"Unsupported agg: {agg}. Choose from mean,sum,min,max,median.")
  return out.dropna(how="all").reset_index()
  \<close>
  \<open>set_index\<close> moves the datetime column out of the columns, so selecting it among
  \<open>cols\<close> raises KeyError. The reductions are modelled on numeric columns (the value
  columns after \<open>to_numeric\<close>); on any other column the model reports TypeError.
  \<open>dropna(how="all")\<close> keeps a row when some value in it is not NaN.
\<close>

definition resample ::
  "resampler \<Rightarrow> frame \<Rightarrow> string \<Rightarrow> string option \<Rightarrow> string \<Rightarrow> string list
     \<Rightarrow> error + frame option" where
  "resample resampler df datetime_col freq agg cols =
     (if \<not> truthy freq \<or> datetime_col \<notin> set (columns df) \<or> \<not> set cols \<subseteq> set (columns df)
      then Inr None
      else if datetime_col \<in> set cols then Inl (KeyError datetime_col)
      else case resampler (case freq of Some f \<Rightarrow> f | None \<Rightarrow> []) (getcol df datetime_col) of
             Inl e \<Rightarrow> Inl e
           | Inr buckets \<Rightarrow>
               (case reducer agg of
                  None \<Rightarrow> Inl (SystemExit (''Unsupported agg: '' @ agg @
                                            ''. Choose from mean,sum,min,max,median.''))
                | Some f \<Rightarrow>
                    if \<not> list_all (\<lambda>c. numeric_col (getcol df c)) cols
                    then Inl (TypeError ''agg function failed'')
                    else (let out = map (\<lambda>(label, m).
                                      (label, map (\<lambda>c. f (values_of (select m (getcol df c)))) cols))
                                    buckets;
                              kept = filter (\<lambda>(label, vs). list_ex (\<lambda>v. v \<noteq> NaN) vs) out
                          in Inr (Some ((datetime_col, map (\<lambda>(label, vs). Time label) kept) #
                                        map (\<lambda>j. (cols ! j, map (\<lambda>(label, vs). vs ! j) kept))
                                            [0..<length cols])))))"

text \<open>
  A bucketing used in the examples: fixed-width buckets of \<open>w\<close> time units, labelled by
  their start, from the bucket of the earliest timestamp to that of the latest; and the
  daily rule \<open>"D"\<close> on timestamps counted in seconds.
\<close>

definition fixed_width_bins :: "int \<Rightarrow> series \<Rightarrow> (int \<times> bool list) list" where
  "fixed_width_bins w idx =
     (case concat (map (\<lambda>c. case c of Time t \<Rightarrow> [t] | _ \<Rightarrow> []) idx) of
        [] \<Rightarrow> []
      | t # ts \<Rightarrow>
          map (\<lambda>k. (k * w, map (\<lambda>c. case c of Time u \<Rightarrow> u div w = k | _ \<Rightarrow> False) idx))
              [fold min ts t div w .. fold max ts t div w])"

definition sample_resampler :: resampler where
  "sample_resampler freq idx =
     (if freq \<noteq> ''D'' then Inl (ValueError ''Invalid frequency'')
      else if \<not> list_all is_time idx then Inl (TypeError ''Only valid with DatetimeIndex'')
      else Inr (fixed_width_bins 86400 idx))"

section \<open>Loader: datetime column detection\<close>

text \<open>\<open>notna\<close>: the cell is neither NaN nor NaT.\<close>

definition notna :: "cell \<Rightarrow> bool" where
  "notna c = (c \<noteq> NaN \<and> c \<noteq> NaT)"

text \<open>
  \<^verbatim>\<open>
  try:
      parsed = pd.to_datetime(series.head(sample), errors="coerce", infer_datetime_format=True)
      return float(parsed.notna().mean())
  except Exception:
      return 0.0
  \<close>
  \<open>pd.to_datetime\<close> on a series is the library's and is the parameter \<open>pd_to_datetime\<close>;
  \<open>None\<close> is a raised exception. The score is a float: \<open>None\<close> is NaN, the mean of an
  empty series. The sample has at most 100 values, so the fraction and its comparison with
  0.8 are exact as a real number.
\<close>

definition score_datetime :: "(series \<Rightarrow> series option) \<Rightarrow> series \<Rightarrow> nat \<Rightarrow> real option" where
  "score_datetime pd_to_datetime s sample =
     (case pd_to_datetime (take sample s) of
        None \<Rightarrow> Some 0
      | Some parsed \<Rightarrow>
          if parsed = [] then None
          else Some (real (length (filter notna parsed)) / real (length parsed)))"

text \<open>\<open>score >= 0.8\<close>; false for NaN.\<close>

definition score_ok :: "real option \<Rightarrow> bool" where
  "score_ok sc = (case sc of None \<Rightarrow> False | Some x \<Rightarrow> 8 / 10 \<le> x)"

text \<open>\<open>any(k in c.lower() for k in ["date", "time"])\<close>\<close>

definition name_candidate :: "string \<Rightarrow> bool" where
  "name_candidate c = (contains (lower c) ''date'' \<or> contains (lower c) ''time'')"

text \<open>
  \<open>sorted(xs, key=..., reverse=True)\<close>: Python reverses the list, sorts it stably in
  ascending order and reverses the result, so equal keys keep their original order. NaN
  keys arise only when the table has no rows; they are ordered below every number here,
  and then no first element passes the threshold whatever the order.
\<close>

definition sorted_reverse :: "('a \<Rightarrow> 'k::linorder) \<Rightarrow> 'a list \<Rightarrow> 'a list" where
  "sorted_reverse key xs = rev (sort_key key (rev xs))"

text \<open>
  \<^verbatim>\<open>
  candidates = [c for c in df.columns if any(k in c.lower() for k in ["date", "time"])]
  for c in candidates:
      if cls._score_datetime(df[c]) >= 0.8:
          return c
  scored = sorted(((c, cls._score_datetime(df[c])) for c in df.columns),
                  key=lambda x: x[1], reverse=True)
  if scored and scored[0][1] >= 0.8:
      return scored[0][0]
  return None
  \<close>
\<close>

definition detect_datetime_col :: "(series \<Rightarrow> series option) \<Rightarrow> frame \<Rightarrow> string option" where
  "detect_datetime_col pd_to_datetime df =
     (let candidates = filter name_candidate (columns df)
      in case find (\<lambda>c. score_ok (score_datetime pd_to_datetime (getcol df c) 100)) candidates of
           Some c \<Rightarrow> Some c
         | None \<Rightarrow>
             (let scored = sorted_reverse snd
                             (map (\<lambda>c. (c, score_datetime pd_to_datetime (getcol df c) 100))
                                  (columns df))
              in case scored of
                   [] \<Rightarrow> None
                 | (c, sc) # _ \<Rightarrow> if score_ok sc then Some c else None))"

text \<open>The score of a column of a frame, as both passes compute it.\<close>

definition col_score :: "(series \<Rightarrow> series option) \<Rightarrow> frame \<Rightarrow> string \<Rightarrow> real option" where
  "col_score pd_to_datetime df c = score_datetime pd_to_datetime (getcol df c) 100"

text \<open>A series parser used in the examples: text cells go through \<open>sample_to_datetime\<close>,
  timestamps are kept, anything else is NaT; it never raises.\<close>

definition sample_pd_to_datetime :: "series \<Rightarrow> series option" where
  "sample_pd_to_datetime s =
     Some (map (\<lambda>c. case c of
                       Str x \<Rightarrow> (case sample_to_datetime x of
                                  Some (Timestamp t aware) \<Rightarrow> Time t
                                | None \<Rightarrow> NaT)
                     | Time t \<Rightarrow> Time t
                     | _ \<Rightarrow> NaT) s)"

section \<open>Summarizer\<close>

text \<open>One row of the summary table.\<close>

record summary_row =
  column :: string
  count :: int
  mean :: real
  std :: real
  min_val :: real
  max_val :: real

text \<open>
  The pandas reductions of a non-empty numeric series without missing values:
  \<open>s.mean()\<close>, \<open>s.std(ddof=0)\<close>, \<open>s.min()\<close>, \<open>s.max()\<close>.
\<close>

definition series_mean :: "real list \<Rightarrow> real" where
  "series_mean xs = sum_list xs / real (length xs)"

definition series_std :: "nat \<Rightarrow> real list \<Rightarrow> real" where
  "series_std ddof xs =
     sqrt (sum_list (map (\<lambda>x. (x - series_mean xs)\<^sup>2) xs) / real (length xs - ddof))"

definition series_min :: "real list \<Rightarrow> real" where
  "series_min xs = fold min (tl xs) (hd xs)"

definition series_max :: "real list \<Rightarrow> real" where
  "series_max xs = fold max (tl xs) (hd xs)"

text \<open>
  \<^verbatim>\<open>
  rows = []
  for col in cols:
      if col not in df.columns:
          continue
      s = pd.to_numeric(df[col], errors="coerce").dropna()
      if s.empty:
          continue
      rows.append({"column": col, "count": int(s.shape[0]), "mean": float(s.mean()),
                   "std": float(s.std(ddof=0)), "min": float(s.min()), "max": float(s.max())})
  return pd.DataFrame(rows)
  \<close>
\<close>

fun table :: "(string \<Rightarrow> real option) \<Rightarrow> frame \<Rightarrow> string list \<Rightarrow> summary_row list" where
  "table parse df [] = []"
| "table parse df (col # cols) =
     (if col \<notin> set (columns df) then table parse df cols
      else (let s = values_of (pd_to_numeric parse (getcol df col))
            in if s = [] then table parse df cols
               else \<lparr>column = col, count = int (length s), mean = series_mean s,
                      std = series_std 0 s, min_val = series_min s, max_val = series_max s\<rparr>
                    # table parse df cols))"

text \<open>A numeric parser used in the examples: it knows three numerals and rejects every
  other string.\<close>

definition sample_parse :: "string \<Rightarrow> real option" where
  "sample_parse s = map_of [(''1.0'', 1), (''2.0'', 2), (''3.0'', 3)] s"

section \<open>Visualizer\<close>

subsection \<open>slugify\<close>

text \<open>\<open>re.sub(r"\s+", "-", value)\<close>: every maximal run of whitespace becomes one hyphen.\<close>

function collapse_ws :: "string \<Rightarrow> string" where
  "collapse_ws [] = []"
| "collapse_ws (c # cs) =
     (if is_space c then CHR ''-'' # collapse_ws (dropWhile is_space cs)
      else c # collapse_ws cs)"
  by pat_completeness auto
termination
  by (relation "measure length") (auto simp: length_dropWhile_le less_Suc_eq_le)

text \<open>The characters \<open>[A-Za-z0-9._-]\<close>, which the second substitution keeps. A byte of a
  non-ASCII character is never among them.\<close>

definition safe_char :: "char \<Rightarrow> bool" where
  "safe_char c =
     (c \<in> set ''ABCDEFGHIJKLMNOPQRSTUVWXYZabcdefghijklmnopqrstuvwxyz0123456789._-'')"

text \<open>
  \<^verbatim>\<open>
  value = re.sub(r"\s+", "-", value.strip())
  value = re.sub(r"[^A-Za-z0-9._-]", "", value)
  return value or "figure"
  \<close>
\<close>

definition slugify :: "string \<Rightarrow> string" where
  "slugify v =
     (let v1 = collapse_ws (strip v);
          v2 = filter safe_char v1
      in if v2 = [] then ''figure'' else v2)"

subsection \<open>timeseries\<close>

text \<open>A figure written to a file: what was plotted, its title and labels, and the path.
  Saving it is the only effect of the plotting functions, and the paths of the figures, in
  order, are what they return.\<close>

record line_figure =
  lf_x :: series
  lf_y :: series
  lf_title :: string
  lf_xlabel :: string
  lf_ylabel :: string
  lf_path :: string

text \<open>
  \<^verbatim>\<open>
  paths = []
  for col in value_cols:
      if col not in df.columns:
          continue
      fig, ax = plt.subplots(figsize=(10, 4))
      ax.plot(df[datetime_col], df[col])
      ax.set_title(f"{col} over time{suffix}")
      ax.set_xlabel(datetime_col)
      ax.set_ylabel(col)
      ...
      out = outdir / f"{slugify(col)}{suffix}.png"
      fig.savefig(out, dpi=150)
      paths.append(str(out))
  return paths
  \<close>
  \<open>df[datetime_col]\<close> raises KeyError when the frame has no such column; the exception
  leaves the loop and the function.
\<close>

fun timeseries_figs ::
  "frame \<Rightarrow> string \<Rightarrow> string list \<Rightarrow> string \<Rightarrow> string \<Rightarrow> error + line_figure list" where
  "timeseries_figs df datetime_col [] outdir suffix = Inr []"
| "timeseries_figs df datetime_col (col # value_cols) outdir suffix =
     (if col \<notin> set (columns df) then timeseries_figs df datetime_col value_cols outdir suffix
      else (case map_of df datetime_col of
              None \<Rightarrow> Inl (KeyError datetime_col)
            | Some xs \<Rightarrow>
                (case timeseries_figs df datetime_col value_cols outdir suffix of
                   Inl e \<Rightarrow> Inl e
                 | Inr figs \<Rightarrow>
                     Inr (\<lparr>lf_x = xs, lf_y = getcol df col,
                           lf_title = col @ '' over time'' @ suffix,
                           lf_xlabel = datetime_col, lf_ylabel = col,
                           lf_path = outdir @ ''/'' @ slugify col @ suffix @ ''.png''\<rparr> # figs))))"

definition timeseries ::
  "frame \<Rightarrow> string \<Rightarrow> string list \<Rightarrow> string \<Rightarrow> string \<Rightarrow> error + string list" where
  "timeseries df datetime_col value_cols outdir suffix =
     (case timeseries_figs df datetime_col value_cols outdir suffix of
        Inl e \<Rightarrow> Inl e
      | Inr figs \<Rightarrow> Inr (map lf_path figs))"

subsection \<open>histograms\<close>

record hist_figure =
  hf_data :: "real list"
  hf_bins :: int
  hf_title :: string
  hf_xlabel :: string
  hf_path :: string

text \<open>
  \<open>max(10, min(50, int(np.sqrt(len(series))))) if bins == 0 else bins\<close>. \<open>int\<close>
  truncates, and the square root is not negative, so it is the floor.
\<close>

definition auto_bins :: "int \<Rightarrow> nat \<Rightarrow> int" where
  "auto_bins bins n = (if bins = 0 then max 10 (min 50 \<lfloor>sqrt (real n)\<rfloor>) else bins)"

text \<open>
  \<^verbatim>\<open>
  paths = []
  for col in value_cols:
      if col not in df.columns:
          continue
      series = pd.to_numeric(df[col], errors="coerce").dropna()
      if series.empty:
          continue
      auto_bins = max(10, min(50, int(np.sqrt(len(series))))) if bins == 0 else bins
      ...
      ax.hist(series, bins=auto_bins)
      ax.set_title(f"{col} histogram{suffix}")
      ax.set_xlabel(col)
      ...
      out = outdir / f"{slugify(col)}_hist{suffix}.png"
      fig.savefig(out, dpi=150)
      paths.append(str(out))
  return paths
  \<close>
\<close>

fun histograms_figs ::
  "(string \<Rightarrow> real option) \<Rightarrow> frame \<Rightarrow> string list \<Rightarrow> string \<Rightarrow> int \<Rightarrow> string
     \<Rightarrow> hist_figure list" where
  "histograms_figs parse df [] outdir bins suffix = []"
| "histograms_figs parse df (col # value_cols) outdir bins suffix =
     (if col \<notin> set (columns df) then histograms_figs parse df value_cols outdir bins suffix
      else (let series = values_of (pd_to_numeric parse (getcol df col))
            in if series = [] then histograms_figs parse df value_cols outdir bins suffix
               else \<lparr>hf_data = series, hf_bins = auto_bins bins (length series),
                      hf_title = col @ '' histogram'' @ suffix, hf_xlabel = col,
                      hf_path = outdir @ ''/'' @ slugify col @ ''_hist'' @ suffix @ ''.png''\<rparr>
                    # histograms_figs parse df value_cols outdir bins suffix))"

definition histograms ::
  "(string \<Rightarrow> real option) \<Rightarrow> frame \<Rightarrow> string list \<Rightarrow> string \<Rightarrow> int \<Rightarrow> string \<Rightarrow> string list" where
  "histograms parse df value_cols outdir bins suffix =
     map hf_path (histograms_figs parse df value_cols outdir bins suffix)"

text \<open>A frame with the same columns and no rows.\<close>

definition no_rows :: "frame \<Rightarrow> frame" where
  "no_rows df = map (\<lambda>(n, s). (n, [])) df"

text \<open>A table used in the examples: one row, stamped 2025-01-01.\<close>

definition one_row_table :: frame where
  "one_row_table = [(''t'', [Time 1735689600]), (''v'', [Num 1])]"

text \<open>A table used in the examples: two rows, stamped 2025-01-01 and 2025-01-31.\<close>

definition two_row_table :: frame where
  "two_row_table = [(''t'', [Time 1735689600, Time 1738281600]), (''v'', [Num 1, Num 2])]"

text \<open>The effect of \<open>handle_trace_values\<close> on one cell of a scanned column.\<close>

definition trace_cell :: "(cell \<Rightarrow> string) \<Rightarrow> string \<Rightarrow> real \<Rightarrow> cell \<Rightarrow> cell" where
  "trace_cell str_of trace_token replacement c =
     (if matches_token str_of trace_token c then Num replacement else c)"

text \<open>A rendering of non-string cells used in the examples.\<close>

definition sample_str_of :: "cell \<Rightarrow> string" where
  "sample_str_of c = (case c of Str s \<Rightarrow> s | NaN \<Rightarrow> ''nan'' | NaT \<Rightarrow> ''NaT'' | _ \<Rightarrow> ''0.0'')"

text \<open>A table used in the examples of the trace handling.\<close>

definition trace_table :: frame where
  "trace_table =
     [(''Precip'', [Str ''Trace'', Str '' trace '', Str ''TRACE'', Str ''Trace amount'', Str ''1.2'']),
      (''Temp'', [Str ''Trace''])]"

text \<open>A table used in the examples of the summary: a column with the numbers 1.0, 2.0
  and 3.0 among a missing value and text that is no number.\<close>

definition stats_table :: frame where
  "stats_table = [(''x'', [Str ''1.0'', NaN, Str ''2.0'', Str ''n/a'', Num 3])]"


definition gap_table :: frame where
  "gap_table = [(''t'', [Time 1735689600, Time 1735862400]), (''v'', [Num 1, Num 2])]"

text \<open>A table used in the examples of the detection: two columns of 100 values, 95 of
  them dates, the first named without \<open>date\<close> or \<open>time\<close>.\<close>

definition dates_95 :: series where
  "dates_95 = replicate 95 (Str ''2025-01-01'') @ replicate 5 (Str ''not-a-date'')"

definition detect_table :: frame where
  "detect_table = [(''Station'', dates_95), (''Date/Time'', dates_95)]"

section \<open>Verification\<close>

subsection \<open>to_numeric\<close>


lemma pd_to_numeric_cell_idem:
  "pd_to_numeric_cell parse (pd_to_numeric_cell parse c) = pd_to_numeric_cell parse c"
  by (simp add: pd_to_numeric_cell_def split: cell.splits option.splits)

lemma pd_to_numeric_idem:
  "pd_to_numeric parse (pd_to_numeric parse s) = pd_to_numeric parse s"
  by (simp add: pd_to_numeric_def pd_to_numeric_cell_idem)

lemma columns_setcol: "columns (setcol df c v) = columns df"
  by (induction df) (auto simp: columns_def setcol_def)

lemma map_of_setcol:
  "map_of (setcol df c v) n = (if n = c then map_option (\<lambda>_. v) (map_of df c) else map_of df n)"
  by (induction df) (auto simp: setcol_def)

lemma getcol_setcol:
  assumes "c \<in> set (columns df)"
  shows "getcol (setcol df c v) n = (if n = c then v else getcol df n)"
proof -
  have "map_of df c \<noteq> None"
    using assms by (simp add: columns_def map_of_eq_None_iff)
  then obtain s where "map_of df c = Some s" by blast
  then show ?thesis by (simp add: getcol_def map_of_setcol)
qed

lemma coerced_setcol:
  assumes "c \<in> set (columns df)"
  shows "coerced parse (setcol df c (pd_to_numeric parse (getcol df c))) cols =
         coerced parse df (c # cols)"
proof -
  define v where "v = pd_to_numeric parse (getcol df c)"
  define df' where "df' = setcol df c v"
  have gc: "getcol df' n = (if n = c then v else getcol df n)" for n
    unfolding df'_def using assms by (rule getcol_setcol)
  have "coerced parse df' cols =
        map (\<lambda>(n, s). if n \<in> set cols
                       then (n, pd_to_numeric parse (if n = c then v else getcol df n))
                       else (n, s)) df'"
    by (simp add: coerced_def gc split_def)
  also have "\<dots> = map (\<lambda>(n, s). if n \<in> set cols
                       then (n, pd_to_numeric parse (if n = c then v else getcol df n))
                       else (n, s))
                    (map (\<lambda>(n, s). if n = c then (n, v) else (n, s)) df)"
    by (simp only: df'_def setcol_def)
  also have "\<dots> = coerced parse df (c # cols)"
    by (auto simp: coerced_def v_def pd_to_numeric_idem)
  finally show ?thesis by (simp add: df'_def v_def)
qed

lemma to_numeric_coerced: "to_numeric parse df cols = coerced parse df cols"
proof (induction cols arbitrary: df)
  case Nil
  show ?case by (simp add: coerced_def split_def)
next
  case (Cons c cols)
  show ?case
  proof (cases "c \<in> set (columns df)")
    case True
    then show ?thesis using Cons.IH by (simp add: coerced_setcol)
  next
    case False
    have "to_numeric parse df (c # cols) = coerced parse df cols"
      using False Cons.IH by simp
    also have "\<dots> = coerced parse df (c # cols)"
      using False by (force simp: coerced_def columns_def)
    finally show ?thesis .
  qed
qed

lemma map_of_mapcols:
  "n \<in> A \<Longrightarrow>
   map_of (map (\<lambda>(m, s). if m \<in> A then (m, g m) else (m, s)) df) n =
   map_option (\<lambda>_. g n) (map_of df n)"
  by (induction df) auto

lemma getcol_coerced:
  assumes "n \<in> set cols"
  shows "getcol (coerced parse df cols) n = pd_to_numeric parse (getcol df n)"
proof -
  have "map_of (coerced parse df cols) n =
        map_option (\<lambda>_. pd_to_numeric parse (getcol df n)) (map_of df n)"
    unfolding coerced_def using assms by (rule map_of_mapcols)
  then show ?thesis
    by (cases "map_of df n") (auto simp: getcol_def pd_to_numeric_def)
qed

text \<open>
  Claim C9: \<open>to_numeric\<close> is idempotent. For every table, column list and numeric
  parser, coercing the result of a first coercion again gives the same table.
\<close>

theorem to_numeric_idempotent:
  "to_numeric parse (to_numeric parse df cols) cols = to_numeric parse df cols"
proof -
  define df' where "df' = coerced parse df cols"
  have "coerced parse df' cols =
        map (\<lambda>(n, s). if n \<in> set cols then (n, pd_to_numeric parse (getcol df' n))
                       else (n, s)) df'"
    by (simp add: coerced_def)
  also have "\<dots> =
        map (\<lambda>(n, s). if n \<in> set cols
                       then (n, pd_to_numeric parse (pd_to_numeric parse (getcol df n)))
                       else (n, s)) df'"
    by (rule map_cong) (auto simp: df'_def getcol_coerced)
  also have "\<dots> = df'"
    unfolding df'_def coerced_def[of parse df]
    by (auto simp: pd_to_numeric_idem intro!: map_idI)
  finally show ?thesis by (simp add: to_numeric_coerced df'_def)
qed


theorem to_numeric_idempotent_witness:
  "to_numeric sample_parse
     (to_numeric sample_parse [(''t'', [Time 5, NaT]), (''v'', [Str ''1.0'', Str ''n/a'', NaN])]
        [''v'', ''absent''])
     [''v'', ''absent'']
   = [(''t'', [Time 5, NaT]), (''v'', [Num 1, NaN, NaN])]"
  using to_numeric_idempotent [of sample_parse
      "[(''t'', [Time 5, NaT]), (''v'', [Str ''1.0'', Str ''n/a'', NaN])]" "[''v'', ''absent'']"]
  by (simp add: columns_def setcol_def getcol_def pd_to_numeric_def pd_to_numeric_cell_def
        sample_parse_def)

subsection \<open>filter_date_range\<close>


lemma select_all_False: "select (map (\<lambda>_. False) ys) xs = []"
  by (auto simp: select_def filter_empty_conv dest!: set_zip_leftD)

lemma select_Nil: "select [] xs = []"
  by (simp add: select_def)

lemma ge_None: "ge_bound None = (\<lambda>_. False)"
  by (rule ext) (simp add: ge_bound_def split: cell.splits)

lemma le_None: "le_bound None = (\<lambda>_. False)"
  by (rule ext) (simp add: le_bound_def split: cell.splits)

lemma columns_select_rows: "columns (select_rows m df) = columns df"
  by (simp add: columns_def select_rows_def split_def)

lemma getcol_select_rows: "getcol (select_rows m df) c = select m (getcol df c)"
proof -
  have "map_of (select_rows m df) c = map_option (select m) (map_of df c)"
    by (induction df) (auto simp: select_rows_def)
  then show ?thesis by (cases "map_of df c") (auto simp: getcol_def select_def)
qed

lemma is_time_select: "list_all is_time s \<Longrightarrow> list_all is_time (select m s)"
  by (auto simp: select_def list_all_iff dest!: set_zip_rightD)

lemma select_rows_all_False: "select_rows (map (\<lambda>_. False) ys) df = no_rows df"
  by (simp add: select_rows_def no_rows_def select_all_False)

lemma select_rows_no_rows: "select_rows m (no_rows df) = no_rows df"
  by (simp add: select_rows_def no_rows_def select_def split_def)

lemma no_rows_select_rows: "no_rows (select_rows m df) = no_rows df"
  by (simp add: select_rows_def no_rows_def split_def)

lemma getcol_no_rows: "getcol (no_rows df) c = []"
proof -
  have "map_of (no_rows df) c = map_option (\<lambda>_. []) (map_of df c)"
    by (induction df) (auto simp: no_rows_def)
  then show ?thesis by (cases "map_of df c") (auto simp: getcol_def)
qed

lemma filter_cmp_NaT:
  "list_all is_time (getcol df c) \<Longrightarrow> filter_cmp ge_bound tz df c None = Inr (no_rows df)"
  "list_all is_time (getcol df c) \<Longrightarrow> filter_cmp le_bound tz df c None = Inr (no_rows df)"
  by (simp_all add: filter_cmp_def ge_None le_None select_rows_all_False)

lemma filter_cmp_same_kind:
  "list_all is_time (getcol df c) \<Longrightarrow>
   filter_cmp cmp tz df c (Some (Timestamp t tz)) =
     Inr (select_rows (map (cmp (Some t)) (getcol df c)) df)"
  by (simp add: filter_cmp_def)

lemma filter_cmp_other_kind:
  "list_all is_time (getcol df c) \<Longrightarrow> aware \<noteq> tz \<Longrightarrow>
   filter_cmp cmp tz df c (Some (Timestamp t aware)) =
     Inl (TypeError ''Cannot compare tz-naive and tz-aware datetime-like objects'')"
  by (simp add: filter_cmp_def)

lemma filter_date_range_steps:
  "filter_date_range to_datetime tz df datetime_col start end' =
     (if datetime_col \<notin> set (columns df) then Inr df
      else case bound_step ge_bound to_datetime tz df datetime_col start of
             Inl e \<Rightarrow> Inl e
           | Inr df1 \<Rightarrow> bound_step le_bound to_datetime tz df1 datetime_col end')"
  by (simp add: filter_date_range_def bound_step_def cong: sum.case_cong)

text \<open>One bound on a column of timestamps: it raises exactly when the bound is of the
  other kind; otherwise it gives a selection of the rows, which is empty when the bound is
  applied and does not parse.\<close>

lemma bound_step_cases:
  assumes times: "list_all is_time (getcol df c)"
    and cmp: "cmp None = (\<lambda>_. False)"
  shows "(tz_mismatch to_datetime tz bound \<longrightarrow>
            bound_step cmp to_datetime tz df c bound =
              Inl (TypeError ''Cannot compare tz-naive and tz-aware datetime-like objects'')) \<and>
         (\<not> tz_mismatch to_datetime tz bound \<longrightarrow>
            (\<exists>m. bound_step cmp to_datetime tz df c bound = Inr (select_rows m df)) \<or>
            bound_step cmp to_datetime tz df c bound = Inr df) \<and>
         ((\<exists>s. bound = Some s \<and> s \<noteq> [] \<and> to_datetime s = None) \<longrightarrow>
            bound_step cmp to_datetime tz df c bound = Inr (no_rows df))"
proof (intro conjI impI)
  assume "tz_mismatch to_datetime tz bound"
  then obtain s t aware where "bound = Some s" "s \<noteq> []"
    "to_datetime s = Some (Timestamp t aware)" "aware \<noteq> tz"
    by (auto simp: tz_mismatch_def)
  then show "bound_step cmp to_datetime tz df c bound =
              Inl (TypeError ''Cannot compare tz-naive and tz-aware datetime-like objects'')"
    using times by (simp add: bound_step_def filter_cmp_other_kind)
next
  assume ok: "\<not> tz_mismatch to_datetime tz bound"
  show "(\<exists>m. bound_step cmp to_datetime tz df c bound = Inr (select_rows m df)) \<or>
        bound_step cmp to_datetime tz df c bound = Inr df"
  proof (cases bound)
    case None
    then show ?thesis by (simp add: bound_step_def)
  next
    case (Some s)
    show ?thesis
    proof (cases "s = []")
      case True
      with Some show ?thesis by (simp add: bound_step_def)
    next
      case False
      show ?thesis
      proof (cases "to_datetime s")
        case None
        with Some False times show ?thesis
          by (auto simp: bound_step_def filter_cmp_def)
      next
        case (Some ts)
        obtain t aware where ts: "ts = Timestamp t aware" by (cases ts)
        with ok \<open>bound = Some s\<close> False Some have "aware = tz"
          by (auto simp: tz_mismatch_def)
        with Some ts \<open>bound = Some s\<close> False times show ?thesis
          by (auto simp: bound_step_def filter_cmp_same_kind)
      qed
    qed
  qed
next
  assume "\<exists>s. bound = Some s \<and> s \<noteq> [] \<and> to_datetime s = None"
  then obtain s where "bound = Some s" "s \<noteq> []" "to_datetime s = None" by blast
  then show "bound_step cmp to_datetime tz df c bound = Inr (no_rows df)"
    using times cmp by (simp add: bound_step_def filter_cmp_def select_rows_all_False)
qed

text \<open>
  Claim C1, as amended: on a table with a parsed datetime column, a non-empty start or end
  bound that does not parse becomes the not-a-time value and every comparison with it is
  false. If the other bound, when it is applied and parses, is a timestamp of the column's
  kind (with or without time zone), \<open>filter_date_range\<close> returns the table's columns
  with no rows and does not raise; if it is of the other kind, the comparison with it
  raises TypeError.
\<close>

theorem filter_date_range_unparsable_bound:
  assumes parsed: "parsed_datetime_col df datetime_col"
    and bad: "(\<exists>s. start = Some s \<and> s \<noteq> [] \<and> to_datetime s = None) \<or>
              (\<exists>s. end' = Some s \<and> s \<noteq> [] \<and> to_datetime s = None)"
  shows "filter_date_range to_datetime tz_aware df datetime_col start end' =
           (if tz_mismatch to_datetime tz_aware start \<or> tz_mismatch to_datetime tz_aware end'
            then Inl (TypeError ''Cannot compare tz-naive and tz-aware datetime-like objects'')
            else Inr (no_rows df))"
proof -
  from parsed have present: "datetime_col \<in> set (columns df)"
    and times: "list_all is_time (getcol df datetime_col)"
    by (simp_all add: parsed_datetime_col_def)
  note s1 = bound_step_cases
    [where cmp = ge_bound and to_datetime = to_datetime and tz = tz_aware and bound = start,
     OF times ge_None]
  show ?thesis
  proof (cases "tz_mismatch to_datetime tz_aware start")
    case True
    with s1 present show ?thesis by (simp add: filter_date_range_steps)
  next
    case False
    with s1 obtain df1 where df1: "bound_step ge_bound to_datetime tz_aware df datetime_col start = Inr df1"
      and shape: "(\<exists>m. df1 = select_rows m df) \<or> df1 = df"
      by auto
    have t1: "list_all is_time (getcol df1 datetime_col)"
      using shape times by (auto simp: getcol_select_rows is_time_select)
    have n1: "no_rows df1 = no_rows df"
      using shape by (auto simp: no_rows_select_rows)
    note s2 = bound_step_cases
      [where cmp = le_bound and to_datetime = to_datetime and tz = tz_aware and bound = end',
       OF t1 le_None]
    have res: "filter_date_range to_datetime tz_aware df datetime_col start end' =
               bound_step le_bound to_datetime tz_aware df1 datetime_col end'"
      using present df1 by (simp add: filter_date_range_steps)
    show ?thesis
    proof (cases "tz_mismatch to_datetime tz_aware end'")
      case True
      with s2 False res show ?thesis by simp
    next
      case ok2: False
      show ?thesis
      proof (cases "\<exists>s. end' = Some s \<and> s \<noteq> [] \<and> to_datetime s = None")
        case True
        with s2 have "bound_step le_bound to_datetime tz_aware df1 datetime_col end' =
                      Inr (no_rows df1)" by blast
        with res n1 False ok2 show ?thesis by simp
      next
        case notend: False
        with bad have "\<exists>s. start = Some s \<and> s \<noteq> [] \<and> to_datetime s = None" by blast
        with s1 df1 have e1: "df1 = no_rows df" by simp
        from s2 ok2 have "(\<exists>m. bound_step le_bound to_datetime tz_aware df1 datetime_col end' =
                              Inr (select_rows m df1)) \<or>
                          bound_step le_bound to_datetime tz_aware df1 datetime_col end' = Inr df1"
          by blast
        then have "bound_step le_bound to_datetime tz_aware df1 datetime_col end' =
                   Inr (no_rows df)"
          unfolding e1 by (auto simp: select_rows_no_rows)
        with res False ok2 show ?thesis by simp
      qed
    qed
  qed
qed

lemma filter_date_range_empty_string_bound:
  "filter_date_range to_datetime tz df datetime_col (Some []) end' =
   filter_date_range to_datetime tz df datetime_col None end'"
  "filter_date_range to_datetime tz df datetime_col start (Some []) =
   filter_date_range to_datetime tz df datetime_col start None"
  by (simp_all add: filter_date_range_def cong: sum.case_cong)

theorem filter_date_range_unparsable_bound_witness:
  "parsed_datetime_col one_row_table ''t'' \<and>
   sample_to_datetime ''not-a-date'' = None \<and>
   \<not> tz_mismatch sample_to_datetime False (Some ''2025-01-01'') \<and>
   \<not> tz_mismatch sample_to_datetime False (Some ''not-a-date'') \<and>
   filter_date_range sample_to_datetime False one_row_table ''t''
      (Some ''2025-01-01'') (Some ''not-a-date'') = Inr [(''t'', []), (''v'', [])]"
proof -
  have h1: "parsed_datetime_col one_row_table ''t''"
    by (simp add: parsed_datetime_col_def one_row_table_def columns_def getcol_def is_time_def
          wf_frame_def nrows_def)
  have h2: "sample_to_datetime ''not-a-date'' = None"
    by (simp add: sample_to_datetime_def)
  have h3: "(\<exists>s. Some ''2025-01-01'' = Some s \<and> s \<noteq> [] \<and> sample_to_datetime s = None) \<or>
            (\<exists>s. Some ''not-a-date'' = Some s \<and> s \<noteq> [] \<and> sample_to_datetime s = None)"
    using h2 by simp
  have h4: "\<not> tz_mismatch sample_to_datetime False (Some ''2025-01-01'')"
    and h5: "\<not> tz_mismatch sample_to_datetime False (Some ''not-a-date'')"
    by (simp_all add: tz_mismatch_def sample_to_datetime_def)
  show ?thesis
    using h1 h2 h4 h5
      filter_date_range_unparsable_bound
        [where to_datetime = sample_to_datetime and tz_aware = False, OF h1 h3]
    by (simp add: no_rows_def one_row_table_def)
qed

text \<open>
  Claim C1 as stated fails: with the unparsable start bound \<open>"not-a-date"\<close> and no end
  bound, no constraint remains, so every row would be retained; the code returns no rows,
  where the call without the bound returns the table. And with the start bound
  \<open>"2025-01-01T00:00:00Z"\<close>, which carries a time zone, on a column without one, the call
  with the unparsable end bound raises.
\<close>

theorem filter_date_range_unparsable_bound_counterexample:
  "sample_to_datetime ''not-a-date'' = None \<and>
   parsed_datetime_col one_row_table ''t'' \<and>
   filter_date_range sample_to_datetime False one_row_table ''t'' (Some ''not-a-date'') None
     = Inr [(''t'', []), (''v'', [])] \<and>
   filter_date_range sample_to_datetime False one_row_table ''t'' None None = Inr one_row_table \<and>
   filter_date_range sample_to_datetime False one_row_table ''t'' (Some ''not-a-date'') None
     \<noteq> filter_date_range sample_to_datetime False one_row_table ''t'' None None \<and>
   filter_date_range sample_to_datetime False one_row_table ''t''
      (Some ''2025-01-01T00:00:00Z'') (Some ''not-a-date'')
     = Inl (TypeError ''Cannot compare tz-naive and tz-aware datetime-like objects'')"
  by (simp add: sample_to_datetime_def parsed_datetime_col_def columns_def getcol_def is_time_def
        wf_frame_def nrows_def filter_date_range_def filter_cmp_def select_rows_def select_def
        ge_bound_def one_row_table_def)


lemma select_Cons:
  "select (b # m) (x # xs) = (if b then x # select m xs else select m xs)"
  by (simp add: select_def)

lemma select_select:
  "length ts = length xs \<Longrightarrow>
   select (map P (select (map Q ts) ts)) (select (map Q ts) xs) =
   select (map (\<lambda>c. Q c \<and> P c) ts) xs"
  by (induction ts xs rule: list_induct2) (auto simp: select_Cons select_Nil)

lemma select_map: "select m (map f xs) = map f (select m xs)"
  by (induction m xs rule: list_induct2') (auto simp: select_Cons select_def)

lemma select_nth:
  assumes "length xs = length m"
  shows "select m xs = map (\<lambda>k. xs ! k) (select m [0..<length m])"
proof -
  have "select m xs = select m (map (\<lambda>k. xs ! k) [0..<length xs])"
    by (simp add: map_nth)
  then show ?thesis using assms by (simp add: select_map)
qed

lemma in_select_upt:
  assumes "i < length m" "m ! i"
  shows "i \<in> set (select m [0..<length m])"
proof -
  have "(m ! i, [0..<length m] ! i) \<in> set (zip m [0..<length m])"
    using assms(1) by (auto simp: in_set_zip)
  then have "(True, i) \<in> set (zip m [0..<length m])"
    using assms by simp
  then show ?thesis by (force simp: select_def)
qed

lemma wf_frame_length:
  "wf_frame df \<Longrightarrow> (n, s) \<in> set df \<Longrightarrow> length s = nrows df"
  by (auto simp: wf_frame_def list_all_iff)

lemma wf_frame_getcol:
  assumes "wf_frame df" "c \<in> set (columns df)"
  shows "length (getcol df c) = nrows df"
proof -
  have "map_of df c \<noteq> None"
    using assms(2) by (simp add: columns_def map_of_eq_None_iff)
  then obtain s where s: "map_of df c = Some s" by blast
  then have "(c, s) \<in> set df" by (rule map_of_SomeD)
  with assms(1) s show ?thesis by (simp add: getcol_def wf_frame_length)
qed

lemma row_retained:
  assumes wf: "wf_frame df" and len: "length m = nrows df"
    and i: "i < nrows df" and mi: "m ! i"
  shows "row df i \<in> set (rows_of (select_rows m df))"
proof -
  define sel where "sel = select m [0..<length m]"
  have "i \<in> set sel"
    unfolding sel_def using i mi len by (intro in_select_upt) simp_all
  then obtain j where j: "j < length sel" "sel ! j = i"
    by (auto simp: in_set_conv_nth)
  have cols: "select m s = map (\<lambda>k. s ! k) sel" if "(n, s) \<in> set df" for n s
    unfolding sel_def using wf_frame_length[OF wf that] len by (intro select_nth) simp
  obtain n0 s0 rest where df: "df = (n0, s0) # rest"
    using i by (cases df) (auto simp: nrows_def)
  have "nrows (select_rows m df) = length (select m s0)"
    by (simp add: df select_rows_def nrows_def)
  also have "\<dots> = length sel"
    using cols[of n0 s0] by (simp add: df)
  finally have n': "nrows (select_rows m df) = length sel" .
  have "row (select_rows m df) j = map (\<lambda>(n, s). select m s ! j) df"
    by (simp add: row_def select_rows_def split_def)
  also have "\<dots> = map (\<lambda>(n, s). s ! i) df"
    using cols j by (intro map_cong) auto
  finally have "row (select_rows m df) j = row df i" by (simp add: row_def)
  moreover have "row (select_rows m df) j \<in> set (rows_of (select_rows m df))"
    using j(1) n' by (simp add: rows_of_def)
  ultimately show ?thesis by simp
qed

lemma select_rows_twice:
  assumes wf: "wf_frame df" and c: "c \<in> set (columns df)"
  shows "select_rows (map P (select (map Q (getcol df c)) (getcol df c)))
           (select_rows (map Q (getcol df c)) df) =
         select_rows (map (\<lambda>x. Q x \<and> P x) (getcol df c)) df"
proof -
  have "select (map P (select (map Q (getcol df c)) (getcol df c)))
          (select (map Q (getcol df c)) s) =
        select (map (\<lambda>x. Q x \<and> P x) (getcol df c)) s" if "(n, s) \<in> set df" for n s
    using wf_frame_length[OF wf that] wf_frame_getcol[OF wf c] by (intro select_select) simp
  then show ?thesis
    by (auto simp: select_rows_def)
qed

lemma filter_date_range_both_bounds:
  assumes parsed: "parsed_datetime_col df datetime_col"
    and s: "s \<noteq> []" "to_datetime s = Some (Timestamp a tz)"
    and e: "e \<noteq> []" "to_datetime e = Some (Timestamp b tz)"
  shows "filter_date_range to_datetime tz df datetime_col (Some s) (Some e) =
         Inr (select_rows (map (\<lambda>c. ge_bound (Some a) c \<and> le_bound (Some b) c)
                             (getcol df datetime_col)) df)"
proof -
  from parsed have present: "datetime_col \<in> set (columns df)"
    and times: "list_all is_time (getcol df datetime_col)" and wf: "wf_frame df"
    by (simp_all add: parsed_datetime_col_def)
  define df1 where "df1 = select_rows (map (ge_bound (Some a)) (getcol df datetime_col)) df"
  have t1: "list_all is_time (getcol df1 datetime_col)"
    unfolding df1_def using times by (simp add: getcol_select_rows is_time_select)
  have "filter_date_range to_datetime tz df datetime_col (Some s) (Some e) =
        filter_cmp le_bound tz df1 datetime_col (Some (Timestamp b tz))"
    using present times s e
    by (simp add: filter_date_range_def filter_cmp_same_kind df1_def)
  also have "\<dots> = Inr (select_rows (map (le_bound (Some b)) (getcol df1 datetime_col)) df1)"
    using t1 by (rule filter_cmp_same_kind)
  also have "select_rows (map (le_bound (Some b)) (getcol df1 datetime_col)) df1 =
             select_rows (map (\<lambda>c. ge_bound (Some a) c \<and> le_bound (Some b) c)
                             (getcol df datetime_col)) df"
    unfolding df1_def getcol_select_rows using wf present by (rule select_rows_twice)
  finally show ?thesis .
qed

text \<open>
  Claim C5, as amended: on a table with a parsed datetime column, with start and end bounds
  that parse to timestamps of the column's kind (with or without time zone) and with start
  not after end, a row whose timestamp equals the start or equals the end is retained by
  \<open>filter_date_range\<close>.
\<close>

theorem filter_date_range_inclusive:
  assumes parsed: "parsed_datetime_col df datetime_col"
    and s: "to_datetime s = Some (Timestamp a tz_aware)"
    and e: "to_datetime e = Some (Timestamp b tz_aware)"
    and ab: "a \<le> b"
    and i: "i < nrows df"
    and at: "getcol df datetime_col ! i = Time a \<or> getcol df datetime_col ! i = Time b"
  shows "\<exists>df'. filter_date_range to_datetime tz_aware df datetime_col (Some s) (Some e) = Inr df' \<and>
               row df i \<in> set (rows_of df')"
proof -
  from parsed have present: "datetime_col \<in> set (columns df)" and wf: "wf_frame df"
    and times: "list_all is_time (getcol df datetime_col)"
    by (simp_all add: parsed_datetime_col_def)
  have len: "length (getcol df datetime_col) = nrows df"
    by (rule wf_frame_getcol[OF wf present])
  have ge: "ge_bound (Some a) (getcol df datetime_col ! i)"
    and le: "le_bound (Some b) (getcol df datetime_col ! i)"
    using at ab by (auto simp: ge_bound_def le_bound_def)
  have keep: "row df i \<in> set (rows_of (select_rows (map p (getcol df datetime_col)) df))"
    if "p (getcol df datetime_col ! i)" for p
    using wf i that len by (intro row_retained) simp_all
  consider (both) "s \<noteq> []" "e \<noteq> []" | (start) "s \<noteq> []" "e = []"
    | (stop) "s = []" "e \<noteq> []" | (none) "s = []" "e = []"
    by blast
  then show ?thesis
  proof cases
    case both
    have "filter_date_range to_datetime tz_aware df datetime_col (Some s) (Some e) =
          Inr (select_rows (map (\<lambda>c. ge_bound (Some a) c \<and> le_bound (Some b) c)
                              (getcol df datetime_col)) df)"
      using parsed both(1) s both(2) e by (rule filter_date_range_both_bounds)
    moreover have "row df i \<in> set (rows_of (select_rows
        (map (\<lambda>c. ge_bound (Some a) c \<and> le_bound (Some b) c) (getcol df datetime_col)) df))"
      using ge le by (intro keep) simp
    ultimately show ?thesis by blast
  next
    case start
    have "filter_date_range to_datetime tz_aware df datetime_col (Some s) (Some e) =
          Inr (select_rows (map (ge_bound (Some a)) (getcol df datetime_col)) df)"
      using present times start s by (simp add: filter_date_range_def filter_cmp_same_kind)
    moreover have "row df i \<in> set (rows_of (select_rows
        (map (ge_bound (Some a)) (getcol df datetime_col)) df))"
      using ge by (rule keep)
    ultimately show ?thesis by blast
  next
    case stop
    have "filter_date_range to_datetime tz_aware df datetime_col (Some s) (Some e) =
          Inr (select_rows (map (le_bound (Some b)) (getcol df datetime_col)) df)"
      using present times stop e by (simp add: filter_date_range_def filter_cmp_same_kind)
    moreover have "row df i \<in> set (rows_of (select_rows
        (map (le_bound (Some b)) (getcol df datetime_col)) df))"
      using le by (rule keep)
    ultimately show ?thesis by blast
  next
    case none
    have "filter_date_range to_datetime tz_aware df datetime_col (Some s) (Some e) = Inr df"
      using present none by (simp add: filter_date_range_def)
    moreover have "row df i \<in> set (rows_of df)"
      using i by (simp add: rows_of_def)
    ultimately show ?thesis by blast
  qed
qed

theorem filter_date_range_inclusive_witness:
  "parsed_datetime_col two_row_table ''t'' \<and>
   sample_to_datetime ''2025-01-01'' = Some (Timestamp 1735689600 False) \<and>
   sample_to_datetime ''2025-01-31'' = Some (Timestamp 1738281600 False) \<and>
   getcol two_row_table ''t'' ! 1 = Time 1738281600 \<and>
   (\<exists>df'. filter_date_range sample_to_datetime False two_row_table ''t''
             (Some ''2025-01-01'') (Some ''2025-01-31'') = Inr df' \<and>
          row two_row_table 1 \<in> set (rows_of df'))"
proof -
  have h1: "parsed_datetime_col two_row_table ''t''"
    by (simp add: parsed_datetime_col_def two_row_table_def columns_def getcol_def is_time_def
          wf_frame_def nrows_def)
  have h2: "sample_to_datetime ''2025-01-01'' = Some (Timestamp 1735689600 False)"
    and h3: "sample_to_datetime ''2025-01-31'' = Some (Timestamp 1738281600 False)"
    by (simp_all add: sample_to_datetime_def)
  have h4: "(1735689600 :: int) \<le> 1738281600" by simp
  have h5: "1 < nrows two_row_table" by (simp add: nrows_def two_row_table_def)
  have h6: "getcol two_row_table ''t'' ! 1 = Time 1738281600"
    by (simp add: getcol_def two_row_table_def)
  have h7: "getcol two_row_table ''t'' ! 1 = Time 1735689600 \<or>
            getcol two_row_table ''t'' ! 1 = Time 1738281600"
    using h6 by simp
  show ?thesis
    using h1 h2 h3 h6 filter_date_range_inclusive
      [where to_datetime = sample_to_datetime and s = "''2025-01-01''" and e = "''2025-01-31''"
         and tz_aware = False,
       OF h1 h2 h3 h4 h5 h7]
    by simp
qed

text \<open>
  Claim C5 as stated fails when the start bound is after the end bound: the row stamped
  2025-01-31 equals the start bound \<open>"2025-01-31"\<close>, and with the end bound
  \<open>"2025-01-01"\<close> it is not retained; the result has no rows. It also fails when a bound
  carries a time zone and the column has none: with the start bound
  \<open>"2025-01-01T00:00:00Z"\<close> and the end bound \<open>"2025-01-31"\<close> the call raises, and
  the row equal to the end bound is not returned.
\<close>

theorem filter_date_range_inclusive_counterexample:
  "parsed_datetime_col two_row_table ''t'' \<and>
   sample_to_datetime ''2025-01-31'' = Some (Timestamp 1738281600 False) \<and>
   sample_to_datetime ''2025-01-01'' = Some (Timestamp 1735689600 False) \<and>
   getcol two_row_table ''t'' ! 1 = Time 1738281600 \<and>
   filter_date_range sample_to_datetime False two_row_table ''t''
      (Some ''2025-01-31'') (Some ''2025-01-01'') = Inr [(''t'', []), (''v'', [])] \<and>
   row two_row_table 1 \<notin> set (rows_of [(''t'', []), (''v'', [])]) \<and>
   sample_to_datetime ''2025-01-01T00:00:00Z'' = Some (Timestamp 1735689600 True) \<and>
   filter_date_range sample_to_datetime False two_row_table ''t''
      (Some ''2025-01-01T00:00:00Z'') (Some ''2025-01-31'')
     = Inl (TypeError ''Cannot compare tz-naive and tz-aware datetime-like objects'')"
  by (simp add: sample_to_datetime_def parsed_datetime_col_def columns_def getcol_def is_time_def
        wf_frame_def nrows_def filter_date_range_def filter_cmp_def select_rows_def select_def
        ge_bound_def le_bound_def two_row_table_def rows_of_def)

subsection \<open>handle_trace_values\<close>


lemma loc_assign_map:
  "loc_assign (map P s) s v = map (\<lambda>c. if P c then v else c) s"
  by (induction s) (auto simp: loc_assign_def)

lemma trace_cell_idem:
  "trace_cell str_of tok r (trace_cell str_of tok r c) = trace_cell str_of tok r c"
  by (simp add: trace_cell_def)

lemma no_match_trace_cell:
  assumes "True \<notin> set (map (\<lambda>x. lower x = lower tok) (map (\<lambda>c. strip (astype_str str_of c)) s))"
  shows "map (trace_cell str_of tok r) s = s"
  using assms by (auto simp: trace_cell_def matches_token_def intro!: map_idI)

lemma trace_step:
  assumes "col \<in> set (columns df)"
  shows "(let s = map (\<lambda>c. strip (astype_str str_of c)) (getcol df col);
              msk = map (\<lambda>x. lower x = lower tok) s
          in if True \<in> set msk
             then handle_trace_values str_of
                    (setcol df col (loc_assign msk (getcol df col) (Num r))) cols tok r
             else handle_trace_values str_of df cols tok r) =
         handle_trace_values str_of
           (if True \<in> set (map (\<lambda>x. lower x = lower tok)
                            (map (\<lambda>c. strip (astype_str str_of c)) (getcol df col)))
            then setcol df col (map (trace_cell str_of tok r) (getcol df col)) else df)
           cols tok r"
proof -
  have "loc_assign (map (\<lambda>x. lower x = lower tok)
                     (map (\<lambda>c. strip (astype_str str_of c)) (getcol df col)))
          (getcol df col) (Num r) = map (trace_cell str_of tok r) (getcol df col)"
    using loc_assign_map[of "\<lambda>c. lower (strip (astype_str str_of c)) = lower tok" "getcol df col" "Num r"]
    by (simp add: o_def trace_cell_def matches_token_def)
  then show ?thesis by (simp add: Let_def)
qed

lemma handle_trace_values_columns:
  "columns (handle_trace_values str_of df cols tok r) = columns df"
  by (induction cols arbitrary: df) (simp_all add: Let_def columns_setcol)

lemma handle_trace_values_getcol:
  "getcol (handle_trace_values str_of df cols tok r) n =
     (if n \<in> set cols then map (trace_cell str_of tok r) (getcol df n) else getcol df n)"
proof (induction cols arbitrary: df)
  case Nil
  show ?case by simp
next
  case (Cons c cols)
  show ?case
  proof (cases "c \<in> set (columns df)")
    case False
    then have "getcol df c = []"
      by (simp add: getcol_def columns_def map_of_eq_None_iff[THEN iffD2])
    with False Cons.IH[of df] show ?thesis by auto
  next
    case True
    define hit where "hit = (True \<in> set (map (\<lambda>x. lower x = lower tok)
                            (map (\<lambda>c. strip (astype_str str_of c)) (getcol df c))))"
    define df' where "df' = (if hit then setcol df c (map (trace_cell str_of tok r) (getcol df c)) else df)"
    have step: "handle_trace_values str_of df (c # cols) tok r = handle_trace_values str_of df' cols tok r"
      using True trace_step[OF True, of str_of tok r cols] by (simp add: df'_def hit_def)
    have same: "\<not> hit \<Longrightarrow> map (trace_cell str_of tok r) (getcol df c) = getcol df c"
      unfolding hit_def by (rule no_match_trace_cell)
    have g: "getcol df' m = (if m = c then map (trace_cell str_of tok r) (getcol df c) else getcol df m)" for m
      using True same by (auto simp: df'_def getcol_setcol)
    show ?thesis
      unfolding step Cons.IH[of df'] g
      by (auto simp: trace_cell_idem)
  qed
qed

lemma matches_token_examples:
  "matches_token str_of ''Trace'' (Str ''Trace'')"
  "matches_token str_of ''Trace'' (Str '' trace '')"
  "matches_token str_of ''Trace'' (Str ''TRACE'')"
  "\<not> matches_token str_of ''Trace'' (Str ''Trace amount'')"
  by (simp_all add: matches_token_def astype_str_def strip_def is_space_def lower_def lower_char_def)


text \<open>
  Claim C8: \<open>handle_trace_values\<close> replaces a cell of a listed, present column by the
  replacement exactly when the cell's text, trimmed of surrounding whitespace, equals the
  token up to letter case; every other cell and column is unchanged and no column is added
  for a listed name that is absent. With the token \<open>"Trace"\<close> the cells \<open>"Trace"\<close>,
  \<open>" trace "\<close> and \<open>"TRACE"\<close> are replaced and \<open>"Trace amount"\<close> is not.
\<close>

theorem handle_trace_values_exact_match:
  "columns (handle_trace_values str_of df cols trace_token replacement) = columns df \<and>
   (\<forall>n. getcol (handle_trace_values str_of df cols trace_token replacement) n =
        (if n \<in> set cols
         then map (\<lambda>c. if lower (strip (astype_str str_of c)) = lower trace_token
                        then Num replacement else c) (getcol df n)
         else getcol df n)) \<and>
   trace_cell str_of ''Trace'' replacement (Str ''Trace'') = Num replacement \<and>
   trace_cell str_of ''Trace'' replacement (Str '' trace '') = Num replacement \<and>
   trace_cell str_of ''Trace'' replacement (Str ''TRACE'') = Num replacement \<and>
   trace_cell str_of ''Trace'' replacement (Str ''Trace amount'') = Str ''Trace amount''"
proof -
  have "trace_cell str_of trace_token replacement =
        (\<lambda>c. if lower (strip (astype_str str_of c)) = lower trace_token
              then Num replacement else c)"
    by (rule ext) (simp add: trace_cell_def matches_token_def)
  then show ?thesis
    using handle_trace_values_getcol[of str_of df cols trace_token replacement]
    by (simp add: handle_trace_values_columns trace_cell_def matches_token_examples)
qed

theorem handle_trace_values_exact_match_witness:
  "columns (handle_trace_values sample_str_of trace_table [''Precip'', ''Snow''] ''Trace'' 0)
     = [''Precip'', ''Temp''] \<and>
   getcol (handle_trace_values sample_str_of trace_table [''Precip'', ''Snow''] ''Trace'' 0) ''Precip''
     = [Num 0, Num 0, Num 0, Str ''Trace amount'', Str ''1.2''] \<and>
   getcol (handle_trace_values sample_str_of trace_table [''Precip'', ''Snow''] ''Trace'' 0) ''Temp''
     = [Str ''Trace''] \<and>
   getcol (handle_trace_values sample_str_of trace_table [''Precip'', ''Snow''] ''Trace'' 0) ''Snow''
     = []"
proof -
  have l: "lower ''Trace'' = ''trace''"
    by (simp add: lower_def lower_char_def)
  have c: "lower (strip (astype_str sample_str_of (Str ''Trace''))) = ''trace''"
    "lower (strip (astype_str sample_str_of (Str '' trace ''))) = ''trace''"
    "lower (strip (astype_str sample_str_of (Str ''TRACE''))) = ''trace''"
    "lower (strip (astype_str sample_str_of (Str ''Trace amount''))) = ''trace amount''"
    "lower (strip (astype_str sample_str_of (Str ''1.2''))) = ''1.2''"
    by (simp_all add: astype_str_def strip_def is_space_def lower_def lower_char_def)
  have g: "getcol trace_table ''Precip'' =
             [Str ''Trace'', Str '' trace '', Str ''TRACE'', Str ''Trace amount'', Str ''1.2'']"
    "getcol trace_table ''Temp'' = [Str ''Trace'']" "getcol trace_table ''Snow'' = []"
    "columns trace_table = [''Precip'', ''Temp'']"
    by (simp_all add: trace_table_def getcol_def columns_def)
  show ?thesis
    using handle_trace_values_exact_match
            [of sample_str_of trace_table "[''Precip'', ''Snow'']" "''Trace''" 0]
    by (simp add: l c g del: handle_trace_values.simps)
qed

subsection \<open>timeseries\<close>


lemma map_of_absent: "c \<notin> set (columns df) \<Longrightarrow> map_of df c = None"
  by (simp add: columns_def map_of_eq_None_iff)

lemma map_of_present: "c \<in> set (columns df) \<Longrightarrow> map_of df c = Some (getcol df c)"
  by (cases "map_of df c") (auto simp: getcol_def columns_def map_of_eq_None_iff)

lemma timeseries_figs_no_datetime_col:
  assumes "datetime_col \<notin> set (columns df)"
  shows "timeseries_figs df datetime_col value_cols outdir suffix =
         (if \<exists>c\<in>set value_cols. c \<in> set (columns df) then Inl (KeyError datetime_col) else Inr [])"
  using assms by (induction value_cols) (auto simp: map_of_absent)

lemma timeseries_figs_paths:
  assumes "datetime_col \<in> set (columns df)"
  shows "\<exists>figs. timeseries_figs df datetime_col value_cols outdir suffix = Inr figs \<and>
          map lf_path figs =
            map (\<lambda>c. outdir @ ''/'' @ slugify c @ suffix @ ''.png'')
                (filter (\<lambda>c. c \<in> set (columns df)) value_cols)"
  using assms by (induction value_cols) (auto simp: map_of_present)

text \<open>
  Claim C10: \<open>timeseries\<close> skips only value columns that are absent. If the datetime
  column is absent while some requested value column is present, the lookup of the
  datetime column raises KeyError and the call fails; it neither skips nor returns an
  empty list. With the datetime column present it returns the paths of the present value
  columns, in the order requested.
\<close>

theorem timeseries_missing_datetime_col:
  "(datetime_col \<notin> set (columns df) \<and> (\<exists>c\<in>set value_cols. c \<in> set (columns df)) \<longrightarrow>
      timeseries df datetime_col value_cols outdir suffix = Inl (KeyError datetime_col)) \<and>
   (datetime_col \<in> set (columns df) \<longrightarrow>
      timeseries df datetime_col value_cols outdir suffix =
        Inr (map (\<lambda>c. outdir @ ''/'' @ slugify c @ suffix @ ''.png'')
                 (filter (\<lambda>c. c \<in> set (columns df)) value_cols)))"
proof (intro conjI impI)
  assume "datetime_col \<notin> set (columns df) \<and> (\<exists>c\<in>set value_cols. c \<in> set (columns df))"
  then show "timeseries df datetime_col value_cols outdir suffix = Inl (KeyError datetime_col)"
    by (simp add: timeseries_def timeseries_figs_no_datetime_col)
next
  assume "datetime_col \<in> set (columns df)"
  from timeseries_figs_paths[OF this, of value_cols outdir suffix]
  show "timeseries df datetime_col value_cols outdir suffix =
        Inr (map (\<lambda>c. outdir @ ''/'' @ slugify c @ suffix @ ''.png'')
                 (filter (\<lambda>c. c \<in> set (columns df)) value_cols))"
    by (auto simp: timeseries_def)
qed

theorem timeseries_missing_datetime_col_witness:
  "''Date/Time'' \<notin> set (columns two_row_table) \<and>
   (\<exists>c\<in>set [''Snow'', ''v'']. c \<in> set (columns two_row_table)) \<and>
   timeseries two_row_table ''Date/Time'' [''Snow'', ''v''] ''figures'' []
     = Inl (KeyError ''Date/Time'') \<and>
   ''t'' \<in> set (columns two_row_table) \<and>
   timeseries two_row_table ''t'' [''Snow'', ''v''] ''figures'' [] = Inr [''figures/v.png'']"
proof -
  have h1: "''Date/Time'' \<notin> set (columns two_row_table)"
    and h2: "\<exists>c\<in>set [''Snow'', ''v'']. c \<in> set (columns two_row_table)"
    and h3: "''t'' \<in> set (columns two_row_table)"
    by (simp_all add: two_row_table_def columns_def)
  have s: "slugify ''v'' = ''v''"
    by (simp add: slugify_def strip_def is_space_def safe_char_def)
  show ?thesis
    using h1 h2 h3
      timeseries_missing_datetime_col
        [of "''Date/Time''" two_row_table "[''Snow'', ''v'']" "''figures''" "[]"]
      timeseries_missing_datetime_col
        [of "''t''" two_row_table "[''Snow'', ''v'']" "''figures''" "[]"]
    by (simp add: s two_row_table_def columns_def)
qed

subsection \<open>Summarizer.table\<close>


lemma series_min_Min: "xs \<noteq> [] \<Longrightarrow> series_min xs = Min (set xs)"
  by (cases xs) (simp_all add: series_min_def Min.set_eq_fold[symmetric])

lemma series_max_Max: "xs \<noteq> [] \<Longrightarrow> series_max xs = Max (set xs)"
  by (cases xs) (simp_all add: series_max_def Max.set_eq_fold[symmetric])

lemma series_mean_sum: "xs \<noteq> [] \<Longrightarrow> series_mean xs * real (length xs) = sum_list xs"
  by (simp add: series_mean_def)

lemma series_std_nonneg: "0 \<le> series_std 0 xs"
  by (auto simp: series_std_def intro!: divide_nonneg_nonneg sum_list_nonneg)

lemma series_std_sq:
  assumes "xs \<noteq> []"
  shows "(series_std 0 xs)\<^sup>2 * real (length xs) = (\<Sum>x\<leftarrow>xs. (x - series_mean xs)\<^sup>2)"
proof -
  have "0 \<le> (\<Sum>x\<leftarrow>xs. (x - series_mean xs)\<^sup>2) / real (length xs)"
    by (auto intro!: divide_nonneg_nonneg sum_list_nonneg)
  then have "(series_std 0 xs)\<^sup>2 = (\<Sum>x\<leftarrow>xs. (x - series_mean xs)\<^sup>2) / real (length xs)"
    by (simp add: series_std_def)
  then show ?thesis using assms by simp
qed

lemma table_has_row:
  assumes "col \<in> set cols" "col \<in> set (columns df)"
    and "values_of (pd_to_numeric parse (getcol df col)) \<noteq> []"
  shows "\<lparr>column = col,
           count = int (length (values_of (pd_to_numeric parse (getcol df col)))),
           mean = series_mean (values_of (pd_to_numeric parse (getcol df col))),
           std = series_std 0 (values_of (pd_to_numeric parse (getcol df col))),
           min_val = series_min (values_of (pd_to_numeric parse (getcol df col))),
           max_val = series_max (values_of (pd_to_numeric parse (getcol df col)))\<rparr>
         \<in> set (table parse df cols)"
  using assms by (induction cols) (auto simp: Let_def)

lemma values_of_only_numbers:
  "values_of s = concat (map (\<lambda>c. case c of Num x \<Rightarrow> [x] | _ \<Rightarrow> []) s)"
  by (induction s rule: values_of.induct) simp_all

text \<open>
  Claim C7: for every table and every summarized column that is present and has at least
  one non-missing numeric value, the summary holds a row for the column with the count of
  those values, their mean, their population standard deviation (divisor N), their minimum
  and their maximum, all over the non-missing numeric values only; the values 1.0, 2.0, 3.0
  give count 3, mean 2, standard deviation \<open>sqrt (2/3)\<close>, minimum 1 and maximum 3.
\<close>

theorem table_summary_row:
  assumes "col \<in> set cols" "col \<in> set (columns df)"
    and "vs = values_of (pd_to_numeric parse (getcol df col))"
    and "vs \<noteq> []"
  shows "\<exists>r\<in>set (table parse df cols).
           column r = col \<and> count r = int (length vs) \<and>
           mean r * real (length vs) = sum_list vs \<and>
           0 \<le> std r \<and> (std r)\<^sup>2 * real (length vs) = (\<Sum>x\<leftarrow>vs. (x - mean r)\<^sup>2) \<and>
           min_val r = Min (set vs) \<and> max_val r = Max (set vs) \<and>
           (vs = [1, 2, 3] \<longrightarrow>
              count r = 3 \<and> mean r = 2 \<and> std r = sqrt (2 / 3) \<and> min_val r = 1 \<and> max_val r = 3)"
proof -
  let ?r = "\<lparr>column = col, count = int (length vs), mean = series_mean vs,
             std = series_std 0 vs, min_val = series_min vs, max_val = series_max vs\<rparr>"
  have "?r \<in> set (table parse df cols)"
    using table_has_row[OF assms(1,2)] assms(3,4) by simp
  moreover have "column ?r = col \<and> count ?r = int (length vs) \<and>
           mean ?r * real (length vs) = sum_list vs \<and>
           0 \<le> std ?r \<and> (std ?r)\<^sup>2 * real (length vs) = (\<Sum>x\<leftarrow>vs. (x - mean ?r)\<^sup>2) \<and>
           min_val ?r = Min (set vs) \<and> max_val ?r = Max (set vs)"
    using assms(4)
    by (simp add: series_mean_sum series_std_nonneg series_std_sq series_min_Min series_max_Max)
  moreover have "vs = [1, 2, 3] \<longrightarrow>
           count ?r = 3 \<and> mean ?r = 2 \<and> std ?r = sqrt (2 / 3) \<and> min_val ?r = 1 \<and> max_val ?r = 3"
    by (simp add: series_mean_def series_std_def series_min_def series_max_def)
  ultimately show ?thesis by blast
qed

lemma table_example:
  "table sample_parse stats_table [''x''] =
     [\<lparr>column = ''x'', count = 3, mean = 2, std = sqrt (2 / 3), min_val = 1, max_val = 3\<rparr>]"
  by (simp add: stats_table_def columns_def getcol_def pd_to_numeric_def pd_to_numeric_cell_def
        sample_parse_def series_mean_def series_std_def series_min_def series_max_def)

theorem table_summary_row_witness:
  "''x'' \<in> set [''x''] \<and> ''x'' \<in> set (columns stats_table) \<and>
   values_of (pd_to_numeric sample_parse (getcol stats_table ''x'')) = [1, 2, 3] \<and>
   (\<exists>r\<in>set (table sample_parse stats_table [''x'']).
      column r = ''x'' \<and> count r = 3 \<and> mean r = 2 \<and> std r = sqrt (2 / 3) \<and>
      min_val r = 1 \<and> max_val r = 3)"
proof -
  have h1: "''x'' \<in> set [''x'']" by simp
  have h2: "''x'' \<in> set (columns stats_table)" by (simp add: stats_table_def columns_def)
  have h3: "[1, 2, 3] = values_of (pd_to_numeric sample_parse (getcol stats_table ''x''))"
    by (simp add: stats_table_def getcol_def pd_to_numeric_def pd_to_numeric_cell_def
          sample_parse_def)
  have h4: "[1, 2, 3 :: real] \<noteq> []" by simp
  from table_summary_row [OF h1 h2 h3 h4]
  obtain r where "r \<in> set (table sample_parse stats_table [''x''])" "column r = ''x''"
    "count r = 3 \<and> mean r = 2 \<and> std r = sqrt (2 / 3) \<and> min_val r = 1 \<and> max_val r = 3"
    by auto
  then show ?thesis using h1 h2 h3 by auto
qed

subsection \<open>histograms\<close>


lemma floor_sqrt_eq:
  assumes "0 \<le> k" "k * k \<le> int n" "int n < (k + 1) * (k + 1)"
  shows "\<lfloor>sqrt (real n)\<rfloor> = k"
proof -
  have a: "(real_of_int k)\<^sup>2 \<le> real n"
  proof -
    have "real_of_int (k * k) \<le> real_of_int (int n)" using assms(2) by (simp only: of_int_le_iff)
    then show ?thesis by (simp add: power2_eq_square)
  qed
  have b: "real n < (real_of_int k + 1)\<^sup>2"
  proof -
    have "real_of_int (int n) < real_of_int ((k + 1) * (k + 1))"
      using assms(3) by (simp only: of_int_less_iff)
    then show ?thesis by (simp add: power2_eq_square)
  qed
  have "real_of_int k \<le> sqrt (real n)"
    using a by (rule real_le_rsqrt)
  moreover have "sqrt (real n) < real_of_int k + 1"
    using b assms(1) by (intro real_less_lsqrt) simp_all
  ultimately show ?thesis by (simp add: floor_eq_iff)
qed

lemma floor_sqrt_bounds:
  "\<lfloor>sqrt (real n)\<rfloor> * \<lfloor>sqrt (real n)\<rfloor> \<le> int n \<and>
   int n < (\<lfloor>sqrt (real n)\<rfloor> + 1) * (\<lfloor>sqrt (real n)\<rfloor> + 1)"
proof -
  define k where "k = \<lfloor>sqrt (real n)\<rfloor>"
  have k0: "0 \<le> k" by (simp add: k_def)
  have le: "real_of_int k \<le> sqrt (real n)" by (simp add: k_def)
  have lt: "sqrt (real n) < real_of_int k + 1" by (simp add: k_def)
  have "(real_of_int k)\<^sup>2 \<le> (sqrt (real n))\<^sup>2"
    using le k0 by (intro power_mono) simp_all
  then have "real_of_int (k * k) \<le> real_of_int (int n)" by (simp add: power2_eq_square)
  then have 1: "k * k \<le> int n" by (simp only: of_int_le_iff)
  have "(sqrt (real n))\<^sup>2 < (real_of_int k + 1)\<^sup>2"
    using lt by (intro power_strict_mono) simp_all
  then have "real_of_int (int n) < real_of_int ((k + 1) * (k + 1))" by (simp add: power2_eq_square)
  then have 2: "int n < (k + 1) * (k + 1)" by (simp only: of_int_less_iff)
  from 1 2 show ?thesis by (simp add: k_def)
qed

lemma auto_bins_examples:
  "auto_bins 0 400 = 20" "auto_bins 0 4 = 10" "auto_bins 0 10000 = 50" "auto_bins 0 133 = 11"
proof -
  have "\<lfloor>sqrt (real 400)\<rfloor> = 20" by (rule floor_sqrt_eq) simp_all
  then show "auto_bins 0 400 = 20" by (simp add: auto_bins_def)
  have "\<lfloor>sqrt (real 4)\<rfloor> = 2" by (rule floor_sqrt_eq) simp_all
  then show "auto_bins 0 4 = 10" by (simp add: auto_bins_def)
  have "\<lfloor>sqrt (real 10000)\<rfloor> = 100" by (rule floor_sqrt_eq) simp_all
  then show "auto_bins 0 10000 = 50" by (simp add: auto_bins_def)
  have "\<lfloor>sqrt (real 133)\<rfloor> = 11" by (rule floor_sqrt_eq) simp_all
  then show "auto_bins 0 133 = 11" by (simp add: auto_bins_def)
qed

lemma round_sqrt_133: "round (sqrt 133) = 12"
proof -
  have "(23 / 2 :: real)\<^sup>2 \<le> 133" by (simp add: power2_eq_square)
  then have a: "23 / 2 \<le> sqrt 133" by (rule real_le_rsqrt)
  have "(133 :: real) < (25 / 2)\<^sup>2" by (simp add: power2_eq_square)
  then have b: "sqrt 133 < 25 / 2" by (intro real_less_lsqrt) simp_all
  show ?thesis unfolding round_def using a b by (simp add: floor_eq_iff)
qed

lemma histograms_figs_has:
  assumes "col \<in> set value_cols" "col \<in> set (columns df)"
    and "values_of (pd_to_numeric parse (getcol df col)) \<noteq> []"
  shows "\<lparr>hf_data = values_of (pd_to_numeric parse (getcol df col)),
           hf_bins = auto_bins bins (length (values_of (pd_to_numeric parse (getcol df col)))),
           hf_title = col @ '' histogram'' @ suffix, hf_xlabel = col,
           hf_path = outdir @ ''/'' @ slugify col @ ''_hist'' @ suffix @ ''.png''\<rparr>
         \<in> set (histograms_figs parse df value_cols outdir bins suffix)"
  using assms by (induction value_cols) (auto simp: Let_def)

lemma histograms_figs_all:
  assumes "h \<in> set (histograms_figs parse df value_cols outdir bins suffix)"
  shows "hf_data h \<noteq> [] \<and> hf_bins h = auto_bins bins (length (hf_data h))"
  using assms by (induction value_cols) (auto simp: Let_def split: if_splits)

lemma auto_bins_spec:
  "(bins \<noteq> 0 \<longrightarrow> auto_bins bins n = bins) \<and>
   (bins = 0 \<longrightarrow> 10 \<le> auto_bins bins n \<and> auto_bins bins n \<le> 50 \<and>
      (n < 121 \<longrightarrow> auto_bins bins n = 10) \<and>
      (2500 \<le> n \<longrightarrow> auto_bins bins n = 50) \<and>
      (100 \<le> n \<and> n < 2601 \<longrightarrow>
         auto_bins bins n * auto_bins bins n \<le> int n \<and>
         int n < (auto_bins bins n + 1) * (auto_bins bins n + 1)))"
proof -
  define k where "k = \<lfloor>sqrt (real n)\<rfloor>"
  have k0: "0 \<le> k" by (simp add: k_def)
  have b: "k * k \<le> int n" "int n < (k + 1) * (k + 1)"
    using floor_sqrt_bounds[of n] by (simp_all add: k_def)
  have small: "n < 121 \<Longrightarrow> k \<le> 10"
  proof (rule ccontr)
    assume n: "n < 121" and "\<not> k \<le> 10"
    then have "11 \<le> k" by simp
    then have "11 * 11 \<le> k * k" by (intro mult_mono) simp_all
    with b(1) n show False by simp
  qed
  have big: "2500 \<le> n \<Longrightarrow> 50 \<le> k"
  proof (rule ccontr)
    assume n: "2500 \<le> n" and "\<not> 50 \<le> k"
    then have "k + 1 \<le> 50" by simp
    then have "(k + 1) * (k + 1) \<le> 50 * 50" using k0 by (intro mult_mono) simp_all
    with b(2) n show False by simp
  qed
  have lo: "100 \<le> n \<Longrightarrow> 10 \<le> k"
  proof (rule ccontr)
    assume n: "100 \<le> n" and "\<not> 10 \<le> k"
    then have "k + 1 \<le> 10" by simp
    then have "(k + 1) * (k + 1) \<le> 10 * 10" using k0 by (intro mult_mono) simp_all
    with b(2) n show False by simp
  qed
  have hi: "n < 2601 \<Longrightarrow> k \<le> 50"
  proof (rule ccontr)
    assume n: "n < 2601" and "\<not> k \<le> 50"
    then have "51 \<le> k" by simp
    then have "51 * 51 \<le> k * k" by (intro mult_mono) simp_all
    with b(1) n show False by simp
  qed
  show ?thesis
    using small big lo hi b
    by (auto simp: auto_bins_def k_def[symmetric] max_def min_def)
qed

lemma values_of_numbers:
  "values_of (pd_to_numeric parse (replicate n (Num x))) = replicate n x"
  by (induction n) (simp_all add: pd_to_numeric_def pd_to_numeric_cell_def)

text \<open>
  Claim C2, as amended: for every present column whose non-missing numeric values number
  N > 0, \<open>histograms\<close> draws its histogram with the caller's bin count when that is not
  0, and with the floor of the square root of N clamped to the range 10 to 50 when it is 0:
  a count \<open>b\<close> between 10 and 50 with \<open>b * b \<le> N < (b + 1) * (b + 1)\<close> whenever the
  clamp does not apply; N = 400 gives 20 bins, N = 4 gives 10 and N = 10000 gives 50.
\<close>

theorem histograms_bin_count:
  assumes "col \<in> set value_cols" "col \<in> set (columns df)"
    and "vs = values_of (pd_to_numeric parse (getcol df col))"
    and "vs \<noteq> []"
  shows "\<exists>h\<in>set (histograms_figs parse df value_cols outdir bins suffix).
           hf_xlabel h = col \<and> hf_data h = vs \<and>
           (bins \<noteq> 0 \<longrightarrow> hf_bins h = bins) \<and>
           (bins = 0 \<longrightarrow>
              hf_bins h = max 10 (min 50 \<lfloor>sqrt (real (length vs))\<rfloor>) \<and>
              10 \<le> hf_bins h \<and> hf_bins h \<le> 50 \<and>
              (100 \<le> length vs \<and> length vs < 2601 \<longrightarrow>
                 hf_bins h * hf_bins h \<le> int (length vs) \<and>
                 int (length vs) < (hf_bins h + 1) * (hf_bins h + 1)) \<and>
              (length vs = 400 \<longrightarrow> hf_bins h = 20) \<and>
              (length vs = 4 \<longrightarrow> hf_bins h = 10) \<and>
              (length vs = 10000 \<longrightarrow> hf_bins h = 50))"
proof -
  define b where "b = auto_bins bins (length vs)"
  let ?h = "\<lparr>hf_data = vs, hf_bins = b,
             hf_title = col @ '' histogram'' @ suffix, hf_xlabel = col,
             hf_path = outdir @ ''/'' @ slugify col @ ''_hist'' @ suffix @ ''.png''\<rparr>"
  have mem: "?h \<in> set (histograms_figs parse df value_cols outdir bins suffix)"
    using histograms_figs_has[OF assms(1,2), of parse bins suffix outdir] assms(3,4)
    by (simp add: b_def)
  have p1: "bins \<noteq> 0 \<longrightarrow> b = bins"
    by (simp add: b_def auto_bins_def)
  have p2: "bins = 0 \<longrightarrow> b = max 10 (min 50 \<lfloor>sqrt (real (length vs))\<rfloor>)"
    by (simp add: b_def auto_bins_def)
  have p3: "bins = 0 \<longrightarrow> 10 \<le> b \<and> b \<le> 50 \<and>
              (100 \<le> length vs \<and> length vs < 2601 \<longrightarrow>
                 b * b \<le> int (length vs) \<and> int (length vs) < (b + 1) * (b + 1))"
    unfolding b_def using auto_bins_spec[of bins "length vs"] by blast
  have p4: "bins = 0 \<longrightarrow> (length vs = 400 \<longrightarrow> b = 20) \<and> (length vs = 4 \<longrightarrow> b = 10) \<and>
              (length vs = 10000 \<longrightarrow> b = 50)"
    unfolding b_def using auto_bins_examples(1,2,3) by auto
  have "hf_xlabel ?h = col \<and> hf_data ?h = vs \<and>
           (bins \<noteq> 0 \<longrightarrow> hf_bins ?h = bins) \<and>
           (bins = 0 \<longrightarrow>
              hf_bins ?h = max 10 (min 50 \<lfloor>sqrt (real (length vs))\<rfloor>) \<and>
              10 \<le> hf_bins ?h \<and> hf_bins ?h \<le> 50 \<and>
              (100 \<le> length vs \<and> length vs < 2601 \<longrightarrow>
                 hf_bins ?h * hf_bins ?h \<le> int (length vs) \<and>
                 int (length vs) < (hf_bins ?h + 1) * (hf_bins ?h + 1)) \<and>
              (length vs = 400 \<longrightarrow> hf_bins ?h = 20) \<and>
              (length vs = 4 \<longrightarrow> hf_bins ?h = 10) \<and>
              (length vs = 10000 \<longrightarrow> hf_bins ?h = 50))"
    using p1 p2 p3 p4 by (simp only: hist_figure.simps) blast
  with mem show ?thesis by (rule rev_bexI)
qed

theorem histograms_bin_count_witness:
  "''x'' \<in> set [''y'', ''x''] \<and> ''x'' \<in> set (columns [(''x'', replicate 400 (Num 1))]) \<and>
   length (values_of (pd_to_numeric sample_parse (getcol [(''x'', replicate 400 (Num 1))] ''x''))) = 400 \<and>
   (\<exists>h\<in>set (histograms_figs sample_parse [(''x'', replicate 400 (Num 1))] [''y'', ''x'']
               ''figures'' 0 []).
      hf_xlabel h = ''x'' \<and> hf_bins h = 20)"
proof -
  have h1: "''x'' \<in> set [''y'', ''x'']" by simp
  have h2: "''x'' \<in> set (columns [(''x'', replicate 400 (Num 1))])" by (simp add: columns_def)
  have h3: "replicate 400 1 =
            values_of (pd_to_numeric sample_parse (getcol [(''x'', replicate 400 (Num 1))] ''x''))"
    by (simp add: getcol_def values_of_numbers)
  have h4: "replicate 400 (1 :: real) \<noteq> []" by simp
  from histograms_bin_count [OF h1 h2 h3 h4, of "''figures''" 0 "[]"]
  obtain h where "h \<in> set (histograms_figs sample_parse [(''x'', replicate 400 (Num 1))]
                             [''y'', ''x''] ''figures'' 0 [])"
    "hf_xlabel h = ''x''" "hf_bins h = 20"
    by (auto simp del: histograms_figs.simps)
  then have "\<exists>h\<in>set (histograms_figs sample_parse [(''x'', replicate 400 (Num 1))] [''y'', ''x'']
               ''figures'' 0 []). hf_xlabel h = ''x'' \<and> hf_bins h = 20"
    by blast
  then show ?thesis using h1 h2 h3[symmetric] by (simp del: histograms_figs.simps)
qed

text \<open>
  Claim C2 as stated fails: for 133 values the square root is about 11.53, which rounds to
  12, and the code draws 11 bins.
\<close>

theorem histograms_bin_count_counterexample:
  "length (values_of (pd_to_numeric sample_parse (getcol [(''x'', replicate 133 (Num 1))] ''x''))) = 133 \<and>
   map hf_bins (histograms_figs sample_parse [(''x'', replicate 133 (Num 1))] [''x''] ''figures'' 0 [])
     = [11] \<and>
   max 10 (min 50 (round (sqrt (real 133)))) = (12 :: int)"
  by (simp add: getcol_def columns_def values_of_numbers auto_bins_examples(4) round_sqrt_133)

subsection \<open>resample\<close>


lemma reducer_None_iff:
  "reducer agg = None \<longleftrightarrow> agg \<notin> {''mean'', ''sum'', ''min'', ''max'', ''median''}"
  by (simp add: reducer_def)

lemma resample_None_iff:
  "resample R df datetime_col freq agg cols = Inr None \<longleftrightarrow>
     (\<not> truthy freq \<or> datetime_col \<notin> set (columns df) \<or> \<not> set cols \<subseteq> set (columns df))"
  by (auto simp: resample_def Let_def split: sum.splits option.splits)

lemma resample_unsupported:
  assumes "truthy freq" "datetime_col \<in> set (columns df)" "set cols \<subseteq> set (columns df)"
    and "datetime_col \<notin> set cols"
    and "freq = Some f" "R f (getcol df datetime_col) = Inr buckets"
    and "agg \<notin> {''mean'', ''sum'', ''min'', ''max'', ''median''}"
  shows "resample R df datetime_col freq agg cols =
         Inl (SystemExit (''Unsupported agg: '' @ agg @ ''. Choose from mean,sum,min,max,median.''))"
proof -
  have "reducer agg = None" using assms(7) by (simp add: reducer_None_iff)
  then show ?thesis using assms(1-6) by (simp add: resample_def)
qed


lemma bins_gap:
  "sample_resampler ''D'' [Time 1735689600, Time 1735862400] =
     Inr [(1735689600, [True, False]), (1735776000, [False, False]), (1735862400, [False, True])]"
  by (simp add: sample_resampler_def is_time_def fixed_width_bins_def upto.simps)

lemma reducer_NaN_iff:
  assumes "agg \<in> {''mean'', ''min'', ''max'', ''median''}" "reducer agg = Some g"
  shows "g xs = NaN \<longleftrightarrow> xs = []"
proof -
  from assms have "g = agg_mean \<or> g = agg_min \<or> g = agg_max \<or> g = agg_median"
    by (auto simp: reducer_def split: if_splits)
  then show ?thesis
    by (auto simp: agg_mean_def agg_min_def agg_max_def agg_median_def Let_def
          split: list.splits if_splits)
qed

lemma filter_map_rows:
  "filter P (map h xs) = map h (filter (\<lambda>x. P (h x)) xs)"
  by (induction xs) simp_all

text \<open>
  For \<open>mean\<close>, \<open>min\<close>, \<open>max\<close> and \<open>median\<close> the reduction of a bucket with no
  value is NaN, so \<open>dropna(how="all")\<close> removes exactly the buckets in which every
  selected column is entirely missing: the time column of the result lists the buckets
  that hold a value in some selected column.
\<close>

lemma resample_drops_missing_buckets:
  assumes res: "resample R df datetime_col (Some f) agg cols = Inr (Some out)"
    and agg: "agg \<in> {''mean'', ''min'', ''max'', ''median''}"
    and bins: "R f (getcol df datetime_col) = Inr buckets"
  shows "getcol out datetime_col =
         map (\<lambda>(label, m). Time label)
             (filter (\<lambda>(label, m). \<exists>c\<in>set cols. values_of (select m (getcol df c)) \<noteq> [])
                     buckets)"
proof -
  obtain g where g: "reducer agg = Some g"
    using agg by (auto simp: reducer_def)
  have nan: "g xs \<noteq> NaN \<longleftrightarrow> xs \<noteq> []" for xs
    using reducer_NaN_iff[OF agg g] by simp
  define out_rows where "out_rows =
    map (\<lambda>(label, m). (label, map (\<lambda>c. g (values_of (select m (getcol df c)))) cols)) buckets"
  define kept where "kept = filter (\<lambda>(label, vs). list_ex (\<lambda>v. v \<noteq> NaN) vs) out_rows"
  have guard: "\<not> (\<not> truthy (Some f) \<or> datetime_col \<notin> set (columns df) \<or>
                  \<not> set cols \<subseteq> set (columns df))"
    using res resample_None_iff[of R df datetime_col "Some f" agg cols] by simp
  have "out = (datetime_col, map (\<lambda>(label, vs). Time label) kept) #
              map (\<lambda>j. (cols ! j, map (\<lambda>(label, vs). vs ! j) kept)) [0..<length cols]"
    using res guard g bins
    by (simp add: resample_def Let_def kept_def out_rows_def split: if_splits)
  then have "getcol out datetime_col = map (\<lambda>(label, vs). Time label) kept"
    by (simp add: getcol_def)
  also have "kept = map (\<lambda>(label, m). (label, map (\<lambda>c. g (values_of (select m (getcol df c)))) cols))
                     (filter (\<lambda>(label, m). \<exists>c\<in>set cols. values_of (select m (getcol df c)) \<noteq> [])
                             buckets)"
    unfolding kept_def out_rows_def filter_map_rows
    by (simp add: split_def list_ex_iff nan)
  finally show ?thesis by (simp add: split_def o_def)
qed

text \<open>
  Claim C4: \<open>resample\<close> returns none exactly when the frequency is absent or empty, the
  datetime column is absent from the table, or a requested value column is absent; and
  with inputs that are otherwise valid (the datetime column is not among the value columns
  and the library accepts the frequency and the index), an aggregation name other than
  mean, sum, min, max and median aborts with SystemExit.
\<close>

theorem resample_none_and_unsupported_agg:
  "(resample R df datetime_col freq agg cols = Inr None \<longleftrightarrow>
      \<not> truthy freq \<or> datetime_col \<notin> set (columns df) \<or> \<not> set cols \<subseteq> set (columns df)) \<and>
   (truthy freq \<and> datetime_col \<in> set (columns df) \<and> set cols \<subseteq> set (columns df) \<and>
    datetime_col \<notin> set cols \<and> freq = Some f \<and> R f (getcol df datetime_col) = Inr buckets \<and>
    agg \<notin> {''mean'', ''sum'', ''min'', ''max'', ''median''} \<longrightarrow>
      resample R df datetime_col freq agg cols =
        Inl (SystemExit (''Unsupported agg: '' @ agg @ ''. Choose from mean,sum,min,max,median.'')))"
  using resample_None_iff[of R df datetime_col freq agg cols]
    resample_unsupported[of freq datetime_col df cols f R buckets agg]
  by blast

theorem resample_none_and_unsupported_agg_witness:
  "truthy (Some ''D'') \<and> ''t'' \<in> set (columns gap_table) \<and> set [''v''] \<subseteq> set (columns gap_table) \<and>
   ''t'' \<notin> set [''v''] \<and>
   sample_resampler ''D'' (getcol gap_table ''t'') =
     Inr [(1735689600, [True, False]), (1735776000, [False, False]), (1735862400, [False, True])] \<and>
   ''mode'' \<notin> {''mean'', ''sum'', ''min'', ''max'', ''median''} \<and>
   resample sample_resampler gap_table ''t'' (Some ''D'') ''mode'' [''v''] =
     Inl (SystemExit ''Unsupported agg: mode. Choose from mean,sum,min,max,median.'') \<and>
   resample sample_resampler gap_table ''t'' None ''mean'' [''v''] = Inr None \<and>
   resample sample_resampler gap_table ''t'' (Some []) ''mean'' [''v''] = Inr None \<and>
   resample sample_resampler gap_table ''Date'' (Some ''D'') ''mean'' [''v''] = Inr None \<and>
   resample sample_resampler gap_table ''t'' (Some ''D'') ''mean'' [''v'', ''w''] = Inr None \<and>
   resample sample_resampler gap_table ''t'' (Some ''D'') ''mean'' [''v''] \<noteq> Inr None"
proof -
  have h: "truthy (Some ''D'')" "''t'' \<in> set (columns gap_table)"
    "set [''v''] \<subseteq> set (columns gap_table)" "''t'' \<notin> set [''v'']"
    "''mode'' \<notin> {''mean'', ''sum'', ''min'', ''max'', ''median''}"
    "\<not> truthy None" "\<not> truthy (Some [])" "''Date'' \<notin> set (columns gap_table)"
    "\<not> set [''v'', ''w''] \<subseteq> set (columns gap_table)"
    by (simp_all add: truthy_def gap_table_def columns_def)
  have b: "sample_resampler ''D'' (getcol gap_table ''t'') =
     Inr [(1735689600, [True, False]), (1735776000, [False, False]), (1735862400, [False, True])]"
    by (simp add: gap_table_def getcol_def bins_gap)
  show ?thesis
    using h b
      resample_none_and_unsupported_agg
        [of sample_resampler gap_table "''t''" "Some ''D''" "''mode''" "[''v'']" "''D''"
            "[(1735689600, [True, False]), (1735776000, [False, False]), (1735862400, [False, True])]"]
      resample_none_and_unsupported_agg
        [of sample_resampler gap_table "''t''" None "''mean''" "[''v'']"]
      resample_none_and_unsupported_agg
        [of sample_resampler gap_table "''t''" "Some []" "''mean''" "[''v'']"]
      resample_none_and_unsupported_agg
        [of sample_resampler gap_table "''Date''" "Some ''D''" "''mean''" "[''v'']"]
      resample_none_and_unsupported_agg
        [of sample_resampler gap_table "''t''" "Some ''D''" "''mean''" "[''v'', ''w'']"]
      resample_none_and_unsupported_agg
        [of sample_resampler gap_table "''t''" "Some ''D''" "''mean''" "[''v'']"]
    by simp
qed





subsection \<open>detect_datetime_col\<close>


lemma find_filter: "find Q (filter N xs) = find (\<lambda>c. N c \<and> Q c) xs"
  by (induction xs) auto

lemma find_split:
  "find P xs = Some c \<Longrightarrow> \<exists>pre post. xs = pre @ c # post \<and> P c \<and> (\<forall>d\<in>set pre. \<not> P d)"
proof (induction xs)
  case Nil
  then show ?case by simp
next
  case (Cons x xs)
  show ?case
  proof (cases "P x")
    case True
    with Cons.prems have "x = c" by simp
    with True have "x # xs = [] @ c # xs \<and> P c \<and> (\<forall>d\<in>set []. \<not> P d)" by simp
    then show ?thesis by blast
  next
    case False
    with Cons obtain pre post where "xs = pre @ c # post" "P c" "\<forall>d\<in>set pre. \<not> P d"
      by auto
    with False have "x # xs = (x # pre) @ c # post \<and> P c \<and> (\<forall>d\<in>set (x # pre). \<not> P d)"
      by simp
    then show ?thesis by blast
  qed
qed

lemma sorted_key_le_last:
  assumes "sorted (map f ys)" "y \<in> set ys"
  shows "f y \<le> f (last ys)"
proof -
  from assms(2) have ne: "ys \<noteq> []" by auto
  then have "ys = butlast ys @ [last ys]" by simp
  then have "sorted (map f (butlast ys) @ [f (last ys)])"
    using assms(1) by (metis list.simps(8,9) map_append)
  then have "\<forall>x\<in>set (map f (butlast ys)). x \<le> f (last ys)"
    by (simp add: sorted_append)
  moreover have "y \<in> set (butlast ys) \<or> y = last ys"
    using assms(2) ne by (metis Un_iff \<open>ys = butlast ys @ [last ys]\<close> empty_iff empty_set
        set_ConsD set_append)
  ultimately show ?thesis by auto
qed

lemma last_filter_self:
  assumes "ys \<noteq> []" "P (last ys)"
  shows "last (filter P ys) = last ys"
proof -
  have "filter P ys = filter P (butlast ys @ [last ys])"
    using assms(1) by simp
  also have "\<dots> = filter P (butlast ys) @ [last ys]"
    using assms(2) by simp
  finally show ?thesis by simp
qed

lemma sorted_reverse_head:
  assumes "xs \<noteq> []"
  shows "\<exists>pre z post rest. xs = pre @ z # post \<and> sorted_reverse key xs = z # rest \<and>
           (\<forall>y\<in>set xs. key y \<le> key z) \<and> (\<forall>y\<in>set pre. key y < key z)"
proof -
  define ys where "ys = sort_key key (rev xs)"
  define z where "z = last ys"
  have ne: "ys \<noteq> []"
    using assms by (metis ys_def length_0_conv length_rev length_sort)
  have sr: "sorted_reverse key xs = z # rev (butlast ys)"
    using ne by (metis sorted_reverse_def ys_def z_def append_butlast_last_id rev.simps(2)
        rev_append rev_rev_ident append_Cons append_Nil rev.simps(1))
  have srt: "sorted (map key ys)" by (simp add: ys_def)
  have setys: "set ys = set xs" by (simp add: ys_def)
  have le: "\<forall>y\<in>set xs. key y \<le> key z"
    using sorted_key_le_last[OF srt] setys z_def by blast
  have "filter (\<lambda>y. key y = key z) ys = rev (filter (\<lambda>y. key y = key z) xs)"
    unfolding ys_def by (simp add: sort_key_stable rev_filter)
  moreover have "last (filter (\<lambda>y. key y = key z) ys) = z"
    using last_filter_self[OF ne, of "\<lambda>y. key y = key z"] by (simp add: z_def)
  moreover have "filter (\<lambda>y. key y = key z) ys \<noteq> []"
    using ne by (metis (mono_tags, lifting) z_def filter_empty_conv last_in_set)
  ultimately have "filter (\<lambda>y. key y = key z) xs \<noteq> []"
    and "hd (filter (\<lambda>y. key y = key z) xs) = z"
    by (simp_all add: last_rev)
  then obtain fs where "filter (\<lambda>y. key y = key z) xs = z # fs"
    by (cases "filter (\<lambda>y. key y = key z) xs") auto
  then obtain pre post where split: "xs = pre @ z # post"
    and pre: "\<forall>u\<in>set pre. key u \<noteq> key z"
    by (auto simp: filter_eq_Cons_iff)
  have "\<forall>y\<in>set pre. key y < key z"
    using le pre split by (auto simp: order_less_le)
  with split sr le show ?thesis by blast
qed

lemma score_ok_mono: "score_ok a \<Longrightarrow> a \<le> b \<Longrightarrow> score_ok b"
  by (cases a; cases b) (auto simp: score_ok_def)

lemma detect_pass1:
  assumes "\<exists>c\<in>set (columns df). name_candidate c \<and> score_ok (col_score P df c)"
  shows "\<exists>pre c post. columns df = pre @ c # post \<and>
           name_candidate c \<and> score_ok (col_score P df c) \<and>
           (\<forall>d\<in>set pre. \<not> (name_candidate d \<and> score_ok (col_score P df d))) \<and>
           detect_datetime_col P df = Some c"
proof -
  let ?Q = "\<lambda>c. name_candidate c \<and> score_ok (col_score P df c)"
  have "find ?Q (columns df) \<noteq> None"
    using assms by (auto simp: find_None_iff)
  then obtain c where c: "find ?Q (columns df) = Some c" by blast
  from find_split[OF this] obtain pre post where
    "columns df = pre @ c # post" "?Q c" "\<forall>d\<in>set pre. \<not> ?Q d" by blast
  moreover have "detect_datetime_col P df = Some c"
    using c by (simp add: detect_datetime_col_def find_filter col_score_def)
  ultimately show ?thesis by blast
qed

lemma detect_pass2:
  assumes "\<not> (\<exists>c\<in>set (columns df). name_candidate c \<and> score_ok (col_score P df c))"
  shows "detect_datetime_col P df =
         (case sorted_reverse snd (map (\<lambda>c. (c, col_score P df c)) (columns df)) of
            [] \<Rightarrow> None
          | (c, sc) # _ \<Rightarrow> if score_ok sc then Some c else None)"
proof -
  have "find (\<lambda>c. name_candidate c \<and> score_ok (col_score P df c)) (columns df) = None"
    using assms by (auto simp: find_None_iff)
  then show ?thesis
    by (simp add: detect_datetime_col_def find_filter col_score_def)
qed

lemma scored_head:
  assumes "cols \<noteq> []"
  shows "\<exists>pre c post rest. cols = pre @ c # post \<and>
           sorted_reverse snd (map (\<lambda>c. (c, S c)) cols) = (c, S c) # rest \<and>
           (\<forall>d\<in>set cols. S d \<le> S c) \<and> (\<forall>d\<in>set pre. S d < S c)"
proof -
  let ?xs = "map (\<lambda>c. (c, S c)) cols"
  have "?xs \<noteq> []" using assms by simp
  from sorted_reverse_head[OF this, of snd]
  obtain pre z post rest where x: "?xs = pre @ z # post"
    and h: "sorted_reverse snd ?xs = z # rest"
    and le: "\<forall>y\<in>set ?xs. snd y \<le> snd z" and lt: "\<forall>y\<in>set pre. snd y < snd z"
    by blast
  from x obtain pre' c post' where cols: "cols = pre' @ c # post'"
    and pre: "pre = map (\<lambda>c. (c, S c)) pre'" and z: "z = (c, S c)"
    by (auto simp: map_eq_append_conv map_eq_Cons_conv)
  have "\<forall>d\<in>set cols. S d \<le> S c" using le z by auto
  moreover have "\<forall>d\<in>set pre'. S d < S c" using lt z pre by auto
  ultimately show ?thesis using cols h z by blast
qed

lemma detect_pass2_found:
  assumes no1: "\<not> (\<exists>c\<in>set (columns df). name_candidate c \<and> score_ok (col_score P df c))"
    and some: "\<exists>c\<in>set (columns df). score_ok (col_score P df c)"
  shows "\<exists>pre c post. columns df = pre @ c # post \<and> score_ok (col_score P df c) \<and>
           (\<forall>d\<in>set (columns df). col_score P df d \<le> col_score P df c) \<and>
           (\<forall>d\<in>set pre. col_score P df d < col_score P df c) \<and>
           detect_datetime_col P df = Some c"
proof -
  from some have "columns df \<noteq> []" by auto
  from scored_head[OF this, of "col_score P df"]
  obtain pre c post rest where cols: "columns df = pre @ c # post"
    and h: "sorted_reverse snd (map (\<lambda>c. (c, col_score P df c)) (columns df)) =
            (c, col_score P df c) # rest"
    and le: "\<forall>d\<in>set (columns df). col_score P df d \<le> col_score P df c"
    and lt: "\<forall>d\<in>set pre. col_score P df d < col_score P df c"
    by blast
  have ok: "score_ok (col_score P df c)"
    using some le score_ok_mono by blast
  have "detect_datetime_col P df = Some c"
    using ok h by (simp add: detect_pass2[OF no1])
  with cols ok le lt show ?thesis by blast
qed

lemma detect_none:
  assumes "\<not> (\<exists>c\<in>set (columns df). score_ok (col_score P df c))"
  shows "detect_datetime_col P df = None"
proof -
  have no1: "\<not> (\<exists>c\<in>set (columns df). name_candidate c \<and> score_ok (col_score P df c))"
    using assms by blast
  show ?thesis
  proof (cases "columns df = []")
    case True
    then show ?thesis by (simp add: detect_pass2[OF no1] sorted_reverse_def)
  next
    case False
    from scored_head[OF this, of "col_score P df"]
    obtain pre c post rest where cols: "columns df = pre @ c # post"
      and h: "sorted_reverse snd (map (\<lambda>c. (c, col_score P df c)) (columns df)) =
              (c, col_score P df c) # rest"
      by blast
    have "c \<in> set (columns df)" using cols by simp
    then have "\<not> score_ok (col_score P df c)" using assms by blast
    then show ?thesis using h by (simp add: detect_pass2[OF no1])
  qed
qed

lemma name_candidate_Date_Time: "name_candidate ''Date/Time''"
  by (simp add: name_candidate_def lower_def lower_char_def)

lemma name_candidate_Station: "\<not> name_candidate ''Station''"
  by (simp add: name_candidate_def lower_def lower_char_def)

lemma score_dates_95: "score_datetime sample_pd_to_datetime dates_95 100 = Some (95 / 100)"
proof -
  have "sample_pd_to_datetime (take 100 dates_95) =
        Some (replicate 95 (Time 1735689600) @ replicate 5 NaT)"
    by (simp add: dates_95_def sample_pd_to_datetime_def sample_to_datetime_def)
  then show ?thesis
    by (simp add: score_datetime_def notna_def)
qed

lemma detect_datetime_col_passes:
  "((\<exists>c\<in>set (columns df). name_candidate c \<and> score_ok (col_score P df c)) \<longrightarrow>
      (\<exists>pre c post. columns df = pre @ c # post \<and>
         name_candidate c \<and> score_ok (col_score P df c) \<and>
         (\<forall>d\<in>set pre. \<not> (name_candidate d \<and> score_ok (col_score P df d))) \<and>
         detect_datetime_col P df = Some c)) \<and>
   (\<not> (\<exists>c\<in>set (columns df). name_candidate c \<and> score_ok (col_score P df c)) \<and>
    (\<exists>c\<in>set (columns df). score_ok (col_score P df c)) \<longrightarrow>
      (\<exists>pre c post. columns df = pre @ c # post \<and> score_ok (col_score P df c) \<and>
         (\<forall>d\<in>set (columns df). col_score P df d \<le> col_score P df c) \<and>
         (\<forall>d\<in>set pre. col_score P df d < col_score P df c) \<and>
         detect_datetime_col P df = Some c)) \<and>
   (\<not> (\<exists>c\<in>set (columns df). score_ok (col_score P df c)) \<longrightarrow>
      detect_datetime_col P df = None) \<and>
   (''Date/Time'' \<in> set (columns df) \<and> score_ok (col_score P df ''Date/Time'') \<and>
    (\<forall>d\<in>set (columns df). name_candidate d \<and> score_ok (col_score P df d) \<longrightarrow> d = ''Date/Time'')
      \<longrightarrow> detect_datetime_col P df = Some ''Date/Time'')"
proof (intro conjI impI)
  assume "\<exists>c\<in>set (columns df). name_candidate c \<and> score_ok (col_score P df c)"
  then show "\<exists>pre c post. columns df = pre @ c # post \<and>
         name_candidate c \<and> score_ok (col_score P df c) \<and>
         (\<forall>d\<in>set pre. \<not> (name_candidate d \<and> score_ok (col_score P df d))) \<and>
         detect_datetime_col P df = Some c"
    by (rule detect_pass1)
next
  assume "\<not> (\<exists>c\<in>set (columns df). name_candidate c \<and> score_ok (col_score P df c)) \<and>
    (\<exists>c\<in>set (columns df). score_ok (col_score P df c))"
  then show "\<exists>pre c post. columns df = pre @ c # post \<and> score_ok (col_score P df c) \<and>
         (\<forall>d\<in>set (columns df). col_score P df d \<le> col_score P df c) \<and>
         (\<forall>d\<in>set pre. col_score P df d < col_score P df c) \<and>
         detect_datetime_col P df = Some c"
    using detect_pass2_found[of df P] by blast
next
  assume "\<not> (\<exists>c\<in>set (columns df). score_ok (col_score P df c))"
  then show "detect_datetime_col P df = None" by (rule detect_none)
next
  assume a: "''Date/Time'' \<in> set (columns df) \<and> score_ok (col_score P df ''Date/Time'') \<and>
    (\<forall>d\<in>set (columns df). name_candidate d \<and> score_ok (col_score P df d) \<longrightarrow> d = ''Date/Time'')"
  then have "\<exists>c\<in>set (columns df). name_candidate c \<and> score_ok (col_score P df c)"
    using name_candidate_Date_Time by blast
  from detect_pass1[OF this] obtain pre c post where
    c: "columns df = pre @ c # post" "name_candidate c" "score_ok (col_score P df c)"
    "detect_datetime_col P df = Some c" by blast
  from c(1) have "c \<in> set (columns df)" by simp
  with a c(2,3) have "c = ''Date/Time''" by blast
  with c(4) show "detect_datetime_col P df = Some ''Date/Time''" by simp
qed

lemma sample_parse_dates_95:
  "sample_pd_to_datetime (take 100 dates_95) =
     Some (replicate 95 (Time 1735689600) @ replicate 5 NaT)"
  by (simp add: dates_95_def sample_pd_to_datetime_def sample_to_datetime_def)

lemma col_score_fraction:
  "col_score P df c =
     (case P (take 100 (getcol df c)) of
        None \<Rightarrow> Some 0
      | Some parsed \<Rightarrow>
          if parsed = [] then None
          else Some (real (length (filter (\<lambda>x. x \<noteq> NaN \<and> x \<noteq> NaT) parsed)) /
                     real (length parsed)))"
proof -
  have eq: "notna = (\<lambda>x. x \<noteq> NaN \<and> x \<noteq> NaT)"
    by (rule ext) (simp add: notna_def)
  show ?thesis
    by (simp add: col_score_def score_datetime_def eq split: option.splits)
qed

lemma score_ok_threshold: "score_ok sc \<longleftrightarrow> (\<exists>x. sc = Some x \<and> 8 / 10 \<le> x)"
  by (cases sc) (simp_all add: score_ok_def)

lemma fraction_threshold:
  assumes "n \<noteq> 0"
  shows "8 / 10 \<le> real k / real n \<longleftrightarrow> 4 * n \<le> 5 * k"
proof -
  have "8 / 10 \<le> real k / real n \<longleftrightarrow> 8 * real n \<le> 10 * real k"
    using assms by (simp add: field_simps)
  also have "\<dots> \<longleftrightarrow> real (4 * n) \<le> real (5 * k)" by simp
  also have "\<dots> \<longleftrightarrow> 4 * n \<le> 5 * k" by (simp only: of_nat_le_iff)
  finally show ?thesis .
qed

lemma score_ok_counts:
  "score_ok (col_score P df c) \<longleftrightarrow>
     (\<exists>parsed. P (take 100 (getcol df c)) = Some parsed \<and> parsed \<noteq> [] \<and>
        4 * length parsed \<le> 5 * length (filter (\<lambda>x. x \<noteq> NaN \<and> x \<noteq> NaT) parsed))"
proof (cases "P (take 100 (getcol df c))")
  case None
  then show ?thesis by (simp add: col_score_fraction score_ok_threshold)
next
  case (Some parsed)
  show ?thesis
  proof (cases "parsed = []")
    case True
    with Some show ?thesis by (simp add: col_score_fraction score_ok_threshold)
  next
    case False
    then have "length parsed \<noteq> 0" by simp
    from fraction_threshold[OF this] Some False show ?thesis
      by (simp add: col_score_fraction score_ok_threshold)
  qed
qed

text \<open>
  Claim C6: detection of the datetime column has two passes. The score of a column is the
  fraction of its first 100 values that parse (0 when parsing raises; no number when there
  is no value), and a column qualifies when that score is at least 0.8, that is, when at
  least four in five of the sampled values parse. Pass 1 looks only at the columns whose
  name, in lower case, contains \<open>date\<close> or \<open>time\<close> and returns the first of them that
  qualifies. Only when there is none does pass 2 score every column and return the first
  column of highest score when it qualifies; otherwise the detection reports none. Hence a
  qualifying column named \<open>Date/Time\<close> is chosen whatever the scores of the columns named
  without \<open>date\<close> or \<open>time\<close>.
\<close>

theorem detect_datetime_col_two_pass:
  fixes P :: "series \<Rightarrow> series option" and df :: frame
  defines "score \<equiv> \<lambda>c. (case P (take 100 (getcol df c)) of
                             None \<Rightarrow> Some 0
                           | Some parsed \<Rightarrow>
                               if parsed = [] then None
                               else Some (real (length (filter (\<lambda>x. x \<noteq> NaN \<and> x \<noteq> NaT) parsed)) /
                                          real (length parsed)))"
  defines "good \<equiv> \<lambda>c. \<exists>x. score c = Some x \<and> 8 / 10 \<le> x"
  defines "named \<equiv> \<lambda>c. contains (lower c) ''date'' \<or> contains (lower c) ''time''"
  shows
  "((\<exists>c\<in>set (columns df). named c \<and> good c) \<longrightarrow>
      (\<exists>pre c post. columns df = pre @ c # post \<and> named c \<and> good c \<and>
         (\<forall>d\<in>set pre. \<not> (named d \<and> good d)) \<and>
         detect_datetime_col P df = Some c)) \<and>
   (\<not> (\<exists>c\<in>set (columns df). named c \<and> good c) \<and> (\<exists>c\<in>set (columns df). good c) \<longrightarrow>
      (\<exists>pre c post. columns df = pre @ c # post \<and> good c \<and>
         (\<forall>d\<in>set (columns df). score d \<le> score c) \<and>
         (\<forall>d\<in>set pre. score d < score c) \<and>
         detect_datetime_col P df = Some c)) \<and>
   (\<not> (\<exists>c\<in>set (columns df). good c) \<longrightarrow> detect_datetime_col P df = None) \<and>
   (''Date/Time'' \<in> set (columns df) \<and> good ''Date/Time'' \<and>
    (\<forall>d\<in>set (columns df). named d \<and> good d \<longrightarrow> d = ''Date/Time'')
      \<longrightarrow> detect_datetime_col P df = Some ''Date/Time'') \<and>
   (\<forall>c. good c \<longleftrightarrow>
      (\<exists>parsed. P (take 100 (getcol df c)) = Some parsed \<and> parsed \<noteq> [] \<and>
         4 * length parsed \<le> 5 * length (filter (\<lambda>x. x \<noteq> NaN \<and> x \<noteq> NaT) parsed)))"
proof -
  have sc: "score = col_score P df"
    by (rule ext) (simp add: score_def col_score_fraction)
  have gd: "good = (\<lambda>c. score_ok (col_score P df c))"
    by (rule ext) (simp add: good_def sc score_ok_threshold)
  have nm: "named = name_candidate"
    by (rule ext) (simp add: named_def name_candidate_def)
  show ?thesis
    unfolding sc gd nm
    using detect_datetime_col_passes[of df P] score_ok_counts[of P df]
    by blast
qed

theorem detect_datetime_col_two_pass_witness:
  "columns detect_table = [''Station'', ''Date/Time''] \<and>
   sample_pd_to_datetime (take 100 (getcol detect_table ''Station'')) =
     Some (replicate 95 (Time 1735689600) @ replicate 5 NaT) \<and>
   sample_pd_to_datetime (take 100 (getcol detect_table ''Date/Time'')) =
     Some (replicate 95 (Time 1735689600) @ replicate 5 NaT) \<and>
   length (filter (\<lambda>x. x \<noteq> NaN \<and> x \<noteq> NaT) (replicate 95 (Time 1735689600) @ replicate 5 NaT)) = 95 \<and>
   length (replicate 95 (Time 1735689600) @ replicate 5 NaT) = 100 \<and>
   detect_datetime_col sample_pd_to_datetime detect_table = Some ''Date/Time''"
proof -
  have cols: "columns detect_table = [''Station'', ''Date/Time'']"
    by (simp add: detect_table_def columns_def)
  have g: "getcol detect_table ''Station'' = dates_95" "getcol detect_table ''Date/Time'' = dates_95"
    by (simp_all add: detect_table_def getcol_def)
  have p: "sample_pd_to_datetime (take 100 dates_95) =
           Some (replicate 95 (Time 1735689600) @ replicate 5 NaT)"
    by (rule sample_parse_dates_95)
  have n: "length (filter (\<lambda>x. x \<noteq> NaN \<and> x \<noteq> NaT)
                    (replicate 95 (Time 1735689600) @ replicate 5 NaT)) = 95"
    by simp
  have st: "\<not> (contains (lower ''Station'') ''date'' \<or> contains (lower ''Station'') ''time'')"
    using name_candidate_Station by (simp add: name_candidate_def)
  have h: "''Date/Time'' \<in> set (columns detect_table) \<and>
        (\<exists>x. (case sample_pd_to_datetime (take 100 (getcol detect_table ''Date/Time'')) of
                None \<Rightarrow> Some 0
              | Some parsed \<Rightarrow>
                  if parsed = [] then None
                  else Some (real (length (filter (\<lambda>x. x \<noteq> NaN \<and> x \<noteq> NaT) parsed)) /
                             real (length parsed))) = Some x \<and> 8 / 10 \<le> x) \<and>
        (\<forall>d\<in>set (columns detect_table).
           (contains (lower d) ''date'' \<or> contains (lower d) ''time'') \<and>
           (\<exists>x. (case sample_pd_to_datetime (take 100 (getcol detect_table d)) of
                   None \<Rightarrow> Some 0
                 | Some parsed \<Rightarrow>
                     if parsed = [] then None
                     else Some (real (length (filter (\<lambda>x. x \<noteq> NaN \<and> x \<noteq> NaT) parsed)) /
                                real (length parsed))) = Some x \<and> 8 / 10 \<le> x)
           \<longrightarrow> d = ''Date/Time'')"
    using st by (simp add: cols g p) (rule exI[of _ "19 / 20"], simp)
  have "detect_datetime_col sample_pd_to_datetime detect_table = Some ''Date/Time''"
    using detect_datetime_col_two_pass [of detect_table sample_pd_to_datetime] h by blast
  then show ?thesis using cols p n by (simp add: g)
qed

end
